theory Spec2Isabelle
  imports Complex_Main
begin

section \<open>Entities (Entity.ts, Enemy, Tower)\<close>

text \<open>
  JavaScript objects are shared by reference, so entities live in a store indexed by
  references; every operation takes the world and returns the new one. JavaScript numbers
  are modelled as exact reals (rounding, NaN and infinities are outside the model).
  The clock fields \<open>createdTime\<close> and \<open>lastUpdateTime\<close>, the generated \<open>id\<close>
  string, and the private animation fields of the subclasses are left out; \<open>posX\<close> and
  \<open>posY\<close> are the source's \<open>x\<close> and \<open>y\<close>.
\<close>

type_synonym ref = nat

text \<open>
  A destroy callback is a closure. The repository registers the pool's own
  \<open>release\<close> (EntityPool.acquire) and bookkeeping listeners of other subsystems
  (EntityManager.removeEntity, WaveManager.onEnemyDestroyed). A listener is identified by a
  tag; it either returns normally or throws, and it touches neither the entities nor the pool.
\<close>

datatype callback = PoolRelease | Listener nat bool

datatype entity_class = TowerClass | EnemyClass

text \<open>
  What the model keeps of the console and of the listeners' invocations:
  \<open>console.warn\<close> and \<open>console.error\<close> lines, each listener call that returned,
  and each run of the kind-specific teardown hook \<open>onDestroy\<close>.
\<close>

datatype event =
    DestroyWarning ref
  | ListenerRan nat ref
  | ListenerError nat ref
  | TeardownRan ref
  | DamageListenerRan nat ref real
  | ReleaseWarning ref

record entity =
  cls :: entity_class
  posX :: real
  posY :: real
  health :: real
  maxHealth :: real
  radius :: real
  active :: bool
  pooled :: bool
  age :: real
  velocityX :: real
  velocityY :: real
  rotation :: real
  rotationSpeed :: real
  visible :: bool
  alpha :: real
  scale :: real
  onDestroyCallbacks :: "callback list"
  onDamageCallbacks :: "nat list"
  enemyType :: string
  speed :: real
  enemyDamage :: real
  reward :: real
  spawnDistance :: real
  viewportWidth :: "real option"
  viewportHeight :: "real option"

text \<open>EntityData and EnemyData: optional fields are options.\<close>

record entity_data =
  d_x :: real
  d_y :: real
  d_health :: "real option"
  d_maxHealth :: "real option"
  d_radius :: "real option"
  d_enemyType :: "string option"
  d_speed :: "real option"
  d_damage :: "real option"
  d_reward :: "real option"
  d_spawnDistance :: "real option"
  d_viewportWidth :: "real option"
  d_viewportHeight :: "real option"

record pool_config =
  initialSize :: nat
  maxSize :: nat
  growthFactor :: real

record world =
  heap :: "ref \<Rightarrow> entity"
  allocated :: nat
  pool :: "ref list"
  activeSet :: "ref list"
  factory :: entity_class
  config :: pool_config
  totalCreated :: nat
  totalReused :: nat
  rng :: "nat \<Rightarrow> real"
  rngPos :: nat
  trace :: "event list"

text \<open>\<open>v || d\<close> on an optional number: an absent value and zero are both falsy.\<close>

definition js_or :: "real option \<Rightarrow> real \<Rightarrow> real" where
  "js_or v d = (case v of None \<Rightarrow> d | Some a \<Rightarrow> if a = 0 then d else a)"

definition js_or_string :: "string option \<Rightarrow> string \<Rightarrow> string" where
  "js_or_string v d = (case v of None \<Rightarrow> d | Some a \<Rightarrow> if a = [] then d else a)"

definition js_or_nat :: "nat option \<Rightarrow> nat \<Rightarrow> nat" where
  "js_or_nat v d = (case v of None \<Rightarrow> d | Some a \<Rightarrow> if a = 0 then d else a)"

text \<open>A JavaScript Set iterates in insertion order: a list without repetition.\<close>

definition set_add :: "'a \<Rightarrow> 'a list \<Rightarrow> 'a list" where
  "set_add a xs = (if a \<in> set xs then xs else xs @ [a])"

definition set_delete :: "'a \<Rightarrow> 'a list \<Rightarrow> 'a list" where
  "set_delete a xs = removeAll a xs"

definition put :: "ref \<Rightarrow> entity \<Rightarrow> world \<Rightarrow> world" where
  "put r e w = w\<lparr>heap := (heap w)(r := e)\<rparr>"

definition emit :: "event \<Rightarrow> world \<Rightarrow> world" where
  "emit ev w = w\<lparr>trace := trace w @ [ev]\<rparr>"

subsection \<open>Enemy.spawnAtEdge and the reset hooks\<close>

text \<open>
  \<open>r1\<close> and \<open>r2\<close> are the two results of \<open>Math.random()\<close> that one call consumes.
  The switch has no default branch.
\<close>

definition spawnAtEdge :: "real \<Rightarrow> real \<Rightarrow> entity \<Rightarrow> entity" where
  "spawnAtEdge r1 r2 e =
     (let screenWidth = js_or (viewportWidth e) 800;
          screenHeight = js_or (viewportHeight e) 600;
          margin = 100;
          edge = \<lfloor>r1 * 4\<rfloor>
      in if edge = 0 then
           e\<lparr>posX := (r2 - 1/2) * (screenWidth + margin * 2), posY := - screenHeight / 2 - margin\<rparr>
         else if edge = 1 then
           e\<lparr>posX := screenWidth / 2 + margin, posY := (r2 - 1/2) * (screenHeight + margin * 2)\<rparr>
         else if edge = 2 then
           e\<lparr>posX := (r2 - 1/2) * (screenWidth + margin * 2), posY := screenHeight / 2 + margin\<rparr>
         else if edge = 3 then
           e\<lparr>posX := - screenWidth / 2 - margin, posY := (r2 - 1/2) * (screenHeight + margin * 2)\<rparr>
         else e)"

text \<open>Enemy.onReset; Tower.onReset only resets private fields of the tower.\<close>

definition onReset :: "entity_data \<Rightarrow> real \<Rightarrow> real \<Rightarrow> entity \<Rightarrow> entity" where
  "onReset d r1 r2 e =
     (case cls e of
        TowerClass \<Rightarrow> e
      | EnemyClass \<Rightarrow>
          spawnAtEdge r1 r2
            (e\<lparr>enemyType := js_or_string (d_enemyType d) ''basic'',
               speed := js_or (d_speed d) 30,
               enemyDamage := js_or (d_damage d) 1,
               reward := js_or (d_reward d) 10,
               spawnDistance := js_or (d_spawnDistance d) 200\<rparr>))"

text \<open>Entity.reset, on the object itself.\<close>

definition reset_entity :: "entity_data \<Rightarrow> real \<Rightarrow> real \<Rightarrow> entity \<Rightarrow> entity" where
  "reset_entity d r1 r2 e =
     (let h = js_or (d_health d) 1
      in onReset d r1 r2
           (e\<lparr>posX := d_x d, posY := d_y d,
              health := h,
              maxHealth := js_or (d_maxHealth d) h,
              radius := js_or (d_radius d) 10,
              active := True, visible := True, alpha := 1, scale := 1,
              velocityX := 0, velocityY := 0, rotation := 0, rotationSpeed := 0, age := 0,
              onDestroyCallbacks := [], onDamageCallbacks := []\<rparr>))"

text \<open>How many random numbers the reset hook of a class draws.\<close>

definition draws :: "entity_class \<Rightarrow> nat" where
  "draws c = (case c of TowerClass \<Rightarrow> 0 | EnemyClass \<Rightarrow> 2)"

definition reset :: "entity_data \<Rightarrow> ref \<Rightarrow> world \<Rightarrow> world" where
  "reset d r w =
     (let e = heap w r
      in (put r (reset_entity d (rng w (rngPos w)) (rng w (rngPos w + 1)) e) w)
           \<lparr>rngPos := rngPos w + draws (cls e)\<rparr>)"

subsection \<open>Constructors\<close>

definition new_Entity :: "entity_class \<Rightarrow> entity_data \<Rightarrow> entity" where
  "new_Entity c d =
     (let h = js_or (d_health d) 1
      in \<lparr>cls = c, posX = d_x d, posY = d_y d, health = h,
          maxHealth = js_or (d_maxHealth d) h, radius = js_or (d_radius d) 10,
          active = True, pooled = False, age = 0, velocityX = 0, velocityY = 0,
          rotation = 0, rotationSpeed = 0, visible = True, alpha = 1, scale = 1,
          onDestroyCallbacks = [], onDamageCallbacks = [],
          enemyType = [], speed = 0, enemyDamage = 0, reward = 0, spawnDistance = 0,
          viewportWidth = None, viewportHeight = None\<rparr>)"

definition new_Tower :: "entity_data \<Rightarrow> entity" where
  "new_Tower d =
     new_Entity TowerClass
       (d\<lparr>d_x := 0, d_y := 0, d_health := Some 3, d_maxHealth := Some 3, d_radius := Some 30\<rparr>)"

definition new_Enemy :: "entity_data \<Rightarrow> real \<Rightarrow> real \<Rightarrow> entity" where
  "new_Enemy d r1 r2 =
     (let e0 = new_Entity EnemyClass
                 (d\<lparr>d_health := Some (js_or (d_health d) 1), d_radius := Some (js_or (d_radius d) 15)\<rparr>);
          e1 = e0\<lparr>enemyType := js_or_string (d_enemyType d) ''basic'',
                  speed := js_or (d_speed d) 100,
                  enemyDamage := js_or (d_damage d) 1,
                  reward := js_or (d_reward d) 10,
                  spawnDistance := js_or (d_spawnDistance d) 200,
                  viewportWidth := d_viewportWidth d,
                  viewportHeight := d_viewportHeight d\<rparr>;
          e2 = (if enemyType e1 = ''swarm'' then e1\<lparr>radius := max 8 (radius e1 * (6/10))\<rparr> else e1)
      in spawnAtEdge r1 r2 e2)"

subsection \<open>Entity.destroy, Entity.takeDamage and EntityPool.release\<close>

definition release :: "ref \<Rightarrow> world \<Rightarrow> world" where
  "release r w =
     (if \<not> pooled (heap w r) \<or> r \<notin> set (activeSet w) then emit (ReleaseWarning r) w
      else
        let w1 = w\<lparr>activeSet := set_delete r (activeSet w)\<rparr>;
            w2 = put r ((heap w1 r)\<lparr>active := False\<rparr>) w1
        in if length (pool w2) < maxSize (config w2) then w2\<lparr>pool := pool w2 @ [r]\<rparr> else w2)"

text \<open>
  One pass of the loop body of \<open>destroy\<close>: the call of a callback inside
  \<open>try\<close>/\<open>catch\<close>. A throwing listener leaves the \<open>console.error\<close> line of the
  handler and nothing else.
\<close>

datatype thrown = Thrown nat

definition call_callback :: "callback \<Rightarrow> ref \<Rightarrow> world \<Rightarrow> thrown + world" where
  "call_callback cb r w =
     (case cb of
        PoolRelease \<Rightarrow> Inr (release r w)
      | Listener tag throws \<Rightarrow> if throws then Inl (Thrown tag) else Inr (emit (ListenerRan tag r) w))"

definition try_callback :: "ref \<Rightarrow> callback \<Rightarrow> world \<Rightarrow> world" where
  "try_callback r cb w =
     (case call_callback cb r w of
        Inr w' \<Rightarrow> w'
      | Inl (Thrown tag) \<Rightarrow> emit (ListenerError tag r) w)"

definition destroy :: "ref \<Rightarrow> world \<Rightarrow> world" where
  "destroy r w =
     (if \<not> active (heap w r) then emit (DestroyWarning r) w
      else
        let w1 = put r ((heap w r)\<lparr>active := False\<rparr>) w;
            w2 = fold (try_callback r) (onDestroyCallbacks (heap w r)) w1
        in emit (TeardownRan r) w2)"

text \<open>
  No damage listener is registered anywhere in the repository; a damage listener is
  modelled by its tag and leaves its invocation in the trace.
\<close>

definition takeDamage :: "real \<Rightarrow> ref \<Rightarrow> world \<Rightarrow> bool \<times> world" where
  "takeDamage damage r w =
     (if \<not> active (heap w r) \<or> health (heap w r) \<le> 0 then (False, w)
      else
        let w1 = put r ((heap w r)\<lparr>health := max 0 (health (heap w r) - damage)\<rparr>) w;
            w2 = fold (\<lambda>tag. emit (DamageListenerRan tag r damage)) (onDamageCallbacks (heap w r)) w1
        in if health (heap w2 r) \<le> 0 then (True, destroy r w2) else (False, w2))"

definition onDestroyed :: "callback \<Rightarrow> ref \<Rightarrow> world \<Rightarrow> world" where
  "onDestroyed cb r w =
     put r ((heap w r)\<lparr>onDestroyCallbacks := onDestroyCallbacks (heap w r) @ [cb]\<rparr>) w"

definition onDamaged :: "nat \<Rightarrow> ref \<Rightarrow> world \<Rightarrow> world" where
  "onDamaged tag r w =
     put r ((heap w r)\<lparr>onDamageCallbacks := onDamageCallbacks (heap w r) @ [tag]\<rparr>) w"

section \<open>The object pool (EntityPool.ts)\<close>

definition dummyData :: entity_data where
  "dummyData = \<lparr>d_x = 0, d_y = 0, d_health = Some 1, d_maxHealth = None, d_radius = None,
     d_enemyType = None, d_speed = None, d_damage = None, d_reward = None,
     d_spawnDistance = None, d_viewportWidth = None, d_viewportHeight = None\<rparr>"

text \<open>The factory call: a fresh reference and the constructor of the pool's class.\<close>

definition createNewEntity :: "world \<Rightarrow> ref \<times> world" where
  "createNewEntity w =
     (let r = allocated w;
          e = (case factory w of
                 TowerClass \<Rightarrow> new_Tower dummyData
               | EnemyClass \<Rightarrow> new_Enemy dummyData (rng w (rngPos w)) (rng w (rngPos w + 1)))
      in (r, (put r e w)\<lparr>allocated := Suc r, totalCreated := Suc (totalCreated w),
                rngPos := rngPos w + draws (factory w)\<rparr>))"

definition forceReuse :: "entity_data \<Rightarrow> world \<Rightarrow> ref \<times> world" where
  "forceReuse d w =
     (case activeSet w of
        oldestEntity # _ \<Rightarrow> (oldestEntity, reset d oldestEntity (destroy oldestEntity w))
      | [] \<Rightarrow> createNewEntity w)"

definition acquire :: "entity_data \<Rightarrow> world \<Rightarrow> ref \<times> world" where
  "acquire d w =
     (let (entity, w1) =
            (if length (pool w) > 0 then
               let entity = last (pool w);
                   w0 = reset d entity (w\<lparr>pool := butlast (pool w)\<rparr>)
               in (entity, w0\<lparr>totalReused := Suc (totalReused w0)\<rparr>)
             else if length (activeSet w) < maxSize (config w) then
               let (entity, w0) = createNewEntity w
               in (entity, reset d entity w0)
             else forceReuse d w);
          w2 = put entity ((heap w1 entity)\<lparr>pooled := True\<rparr>) w1;
          w3 = w2\<lparr>activeSet := set_add entity (activeSet w2)\<rparr>
      in (entity, onDestroyed PoolRelease entity w3))"

fun preallocate :: "nat \<Rightarrow> world \<Rightarrow> world" where
  "preallocate 0 w = w"
| "preallocate (Suc n) w =
     (let (entity, w1) = createNewEntity w;
          w2 = put entity ((heap w1 entity)\<lparr>pooled := True, active := False\<rparr>) w1
      in preallocate n (w2\<lparr>pool := pool w2 @ [entity]\<rparr>))"

text \<open>
  The constructor. The store of a new world holds no object yet; the entity standing at
  the unallocated references is never read.
\<close>

definition new_EntityPool ::
  "entity_class \<Rightarrow> nat option \<Rightarrow> nat option \<Rightarrow> real option \<Rightarrow> (nat \<Rightarrow> real) \<Rightarrow> world" where
  "new_EntityPool c initialSize_opt maxSize_opt growthFactor_opt g =
     (let cfg = \<lparr>initialSize = js_or_nat initialSize_opt 10,
                 maxSize = js_or_nat maxSize_opt 100,
                 growthFactor = js_or growthFactor_opt (3/2)\<rparr>;
          w = \<lparr>heap = (\<lambda>_. new_Tower dummyData), allocated = 0, pool = [], activeSet = [],
               factory = c, config = cfg, totalCreated = 0, totalReused = 0,
               rng = g, rngPos = 0, trace = []\<rparr>
      in preallocate (initialSize cfg) w)"

text \<open>Sequences of pool operations, as a client issues them.\<close>

datatype pool_op = Acquire entity_data | Release ref | Destroy ref

fun run_op :: "pool_op \<Rightarrow> world \<Rightarrow> world" where
  "run_op (Acquire d) w = snd (acquire d w)"
| "run_op (Release r) w = release r w"
| "run_op (Destroy r) w = destroy r w"

definition run_ops :: "pool_op list \<Rightarrow> world \<Rightarrow> world" where
  "run_ops ops w = fold run_op ops w"

text \<open>The invariant of the specification's data model.\<close>

definition pool_invariant :: "world \<Rightarrow> bool" where
  "pool_invariant w \<longleftrightarrow>
     set (activeSet w) \<inter> set (pool w) = {} \<and> length (activeSet w) \<le> maxSize (config w)"

subsection \<open>Observations and example worlds\<close>

text \<open>The object that \<open>acquire\<close> hands out when it recycles the object at \<open>r\<close>.\<close>

definition acquired :: "entity_data \<Rightarrow> world \<Rightarrow> ref \<Rightarrow> entity" where
  "acquired d w r =
     (reset_entity d (rng w (rngPos w)) (rng w (rngPos w + 1)) (heap w r))
       \<lparr>pooled := True, onDestroyCallbacks := [PoolRelease]\<rparr>"


text \<open>
  Every call of \<open>destroy\<close> on \<open>r\<close> leaves exactly one of two events: the teardown hook
  ran, or the guard refused with a warning. Their number is the number of calls.
\<close>

definition destroy_calls :: "ref \<Rightarrow> event list \<Rightarrow> nat" where
  "destroy_calls r tr = count_list tr (TeardownRan r) + count_list tr (DestroyWarning r)"

text \<open>The tags of the listeners that return normally, in registration order.\<close>

fun ran_tags :: "callback list \<Rightarrow> nat list" where
  "ran_tags [] = []"
| "ran_tags (Listener tag False # cbs) = tag # ran_tags cbs"
| "ran_tags (cb # cbs) = ran_tags cbs"

fun listener_runs :: "event list \<Rightarrow> (nat \<times> ref) list" where
  "listener_runs [] = []"
| "listener_runs (ListenerRan tag r # evs) = (tag, r) # listener_runs evs"
| "listener_runs (ev # evs) = listener_runs evs"

definition example_data :: entity_data where
  "example_data = dummyData\<lparr>d_x := 7, d_y := 9, d_health := Some 5\<rparr>"

text \<open>
  Pools as the constructor builds them: the tower pool of the game
  (\<open>initialSize: 1, maxSize: 1\<close>), a pool of two, a pool whose \<open>initialSize\<close> is left
  to its default of 10, an enemy pool of one, and a pool with \<open>initialSize: 1, maxSize: 2\<close>.
\<close>

definition tower_pool_1 :: world where
  "tower_pool_1 = new_EntityPool TowerClass (Some 1) (Some 1) None (\<lambda>_. 0)"

definition tower_pool_2 :: world where
  "tower_pool_2 = new_EntityPool TowerClass (Some 2) (Some 2) None (\<lambda>_. 0)"

definition default_pool_2 :: world where
  "default_pool_2 = new_EntityPool TowerClass None (Some 2) None (\<lambda>_. 0)"


definition tower_pool_1_2 :: world where
  "tower_pool_1_2 = new_EntityPool TowerClass (Some 1) (Some 2) None (\<lambda>_. 0)"

section \<open>The tower weapon system (TowerWeaponSystem)\<close>

text \<open>
  The weapon system works on its own fields and on the world of the entities: a combat
  state is the pair of both, and the enemies it is given are a list of references.
  Left out are the lists of visual effects, the listeners for kills and projectile hits,
  the display type of a projectile and the console. \<open>damageLog\<close> is the sequence of the
  calls of \<open>damageEnemy\<close>, agent and amount; the source keeps its sum in
  \<open>totalDamageDealt\<close>. A projectile's id comes from a counter (the source builds it from
  the clock and a random string), and the clock reading of \<open>createProjectile\<close> is the
  parameter \<open>now\<close>. Where the source divides by a zero distance (giving NaN), the model
  has the division of the reals.
\<close>

datatype weapon_type = ballistic | energy

record weapon_config =
  wtype :: weapon_type
  wname :: string
  damage :: real
  wrange :: real
  fireRate :: real
  projectileSpeed :: "real option"
  areaOfEffect :: "real option"
  piercing :: "bool option"
  homing :: "bool option"
  continuous :: "bool option"

record projectile =
  p_id :: nat
  p_x :: real
  p_y :: real
  p_targetX :: real
  p_targetY :: real
  p_velocityX :: real
  p_velocityY :: real
  p_damage :: real
  p_range :: real
  p_createdTime :: real
  p_lifetime :: real
  p_target :: "ref option"
  p_homing :: bool
  p_piercing :: bool
  p_areaOfEffect :: real
  p_active :: bool

datatype targeting_mode = NEAREST | FURTHEST | WEAKEST | STRONGEST | FASTEST | SLOWEST

record weapon_system =
  tower :: "ref option"
  targetingMode :: targeting_mode
  lastFireTimes :: "string \<Rightarrow> real option"
  projectiles :: "projectile list"
  nextProjectileId :: nat
  totalDamageDealt :: real
  enemiesKilled :: nat
  projectilesFired :: nat
  shotsHit :: nat
  damageLog :: "(ref \<times> real) list"

type_synonym combat = "weapon_system \<times> world"


definition distance :: "real \<Rightarrow> real \<Rightarrow> real \<Rightarrow> real \<Rightarrow> real" where
  "distance x1 y1 x2 y2 = sqrt ((x1 - x2)\<^sup>2 + (y1 - y2)\<^sup>2)"

definition enemyDistance :: "world \<Rightarrow> ref \<Rightarrow> ref \<Rightarrow> real" where
  "enemyDistance w a b = distance (posX (heap w a)) (posY (heap w a)) (posX (heap w b)) (posY (heap w b))"

text \<open>\<open>Enemy.takeDamage\<close> adds a flash for the renderer to \<open>Entity.takeDamage\<close>.\<close>

definition damageEnemy :: "ref \<Rightarrow> real \<Rightarrow> combat \<Rightarrow> combat" where
  "damageEnemy enemy dmg st =
     (let (died, w') = takeDamage dmg enemy (snd st);
          s' = (fst st)\<lparr>totalDamageDealt := totalDamageDealt (fst st) + dmg,
                         damageLog := damageLog (fst st) @ [(enemy, dmg)]\<rparr>
      in if died then (s'\<lparr>enemiesKilled := Suc (enemiesKilled s')\<rparr>, w') else (s', w'))"




text \<open>The search for the next link of a chain: the body of the inner \<open>for\<close> loop.\<close>

definition chain_step ::
  "world \<Rightarrow> ref \<Rightarrow> ref list \<Rightarrow> ref \<Rightarrow> ref option \<times> real \<Rightarrow> ref option \<times> real" where
  "chain_step w currentTarget hitTargets enemy acc =
     (if enemy \<notin> set hitTargets \<and> active (heap w enemy) then
        if enemyDistance w enemy currentTarget \<le> snd acc
        then (Some enemy, enemyDistance w enemy currentTarget) else acc
      else acc)"

definition maxChains :: nat where
  "maxChains = 5"

function chain_loop ::
  "weapon_config \<Rightarrow> ref list \<Rightarrow> ref option \<Rightarrow> ref list \<Rightarrow> nat \<Rightarrow> combat \<Rightarrow> combat" where
  "chain_loop weapon allEnemies currentTarget hitTargets chainCount st =
     (case currentTarget of
        None \<Rightarrow> st
      | Some ct \<Rightarrow>
          if \<not> chainCount < maxChains then st
          else if ct \<in> set hitTargets then st
          else
            let st1 = damageEnemy ct (damage weapon) st;
                nextTarget = fst (fold (chain_step (snd st1) ct (hitTargets @ [ct])) allEnemies
                                    (None, js_or (areaOfEffect weapon) 80))
            in chain_loop weapon allEnemies nextTarget (hitTargets @ [ct]) (Suc chainCount) st1)"
  by pat_completeness auto
termination
  by (relation "measure (\<lambda>(weapon, allEnemies, currentTarget, hitTargets, chainCount, st). maxChains - chainCount)")
     auto

declare chain_loop.simps [simp del]

definition handleChainLightning :: "weapon_config \<Rightarrow> ref \<Rightarrow> ref list \<Rightarrow> combat \<Rightarrow> combat" where
  "handleChainLightning weapon target allEnemies st =
     (case tower (fst st) of
        None \<Rightarrow> st
      | Some t \<Rightarrow> chain_loop weapon allEnemies (Some target) [] 0 st)"

text \<open>The loop body shared by the energy burst and the tesla coil: one agent of the list.\<close>

definition field_step :: "ref \<Rightarrow> real \<Rightarrow> real \<Rightarrow> ref \<Rightarrow> combat \<Rightarrow> combat" where
  "field_step t reach amount enemy st' =
     (if enemyDistance (snd st') enemy t \<le> reach \<and> active (heap (snd st') enemy)
      then damageEnemy enemy amount st' else st')"










text \<open>What a step added to the damage log, and what one agent received.\<close>

definition new_hits :: "combat \<Rightarrow> combat \<Rightarrow> (ref \<times> real) list" where
  "new_hits st st' = drop (length (damageLog (fst st))) (damageLog (fst st'))"

definition hits_on :: "ref \<Rightarrow> (ref \<times> real) list \<Rightarrow> real list" where
  "hits_on r hs = map snd (filter (\<lambda>h. fst h = r) hs)"


subsection \<open>Chains, candidates and an example arena\<close>

definition chain_of :: "combat \<Rightarrow> combat \<Rightarrow> ref list" where
  "chain_of st st' = map fst (new_hits st st')"

text \<open>
  An agent of the list is a candidate for the next hop from \<open>cur\<close> when it is not yet
  visited, active, and within the chain radius \<open>R\<close> of \<open>cur\<close>.
\<close>

definition candidate :: "world \<Rightarrow> real \<Rightarrow> ref list \<Rightarrow> ref list \<Rightarrow> ref \<Rightarrow> ref \<Rightarrow> bool" where
  "candidate w R es visited cur e \<longleftrightarrow>
     e \<in> set es \<and> e \<notin> set visited \<and> active (heap w e) \<and> enemyDistance w e cur \<le> R"

definition nearest_candidate :: "world \<Rightarrow> real \<Rightarrow> ref list \<Rightarrow> ref list \<Rightarrow> ref \<Rightarrow> ref \<Rightarrow> bool" where
  "nearest_candidate w R es visited cur n \<longleftrightarrow>
     candidate w R es visited cur n \<and>
     (\<forall>e\<in>set es. candidate w R es visited cur e \<longrightarrow> enemyDistance w n cur \<le> enemyDistance w e cur)"

definition no_candidate :: "world \<Rightarrow> real \<Rightarrow> ref list \<Rightarrow> ref list \<Rightarrow> ref \<Rightarrow> bool" where
  "no_candidate w R es visited cur \<longleftrightarrow> (\<forall>e\<in>set es. \<not> candidate w R es visited cur e)"

text \<open>Every hop of the chain after \<open>cur\<close> goes to a nearest candidate of its link.\<close>

fun valid_chain :: "world \<Rightarrow> real \<Rightarrow> ref list \<Rightarrow> ref list \<Rightarrow> ref \<Rightarrow> ref list \<Rightarrow> bool" where
  "valid_chain w R es visited cur [] = True"
| "valid_chain w R es visited cur (n # rest) =
     (nearest_candidate w R es visited cur n \<and> valid_chain w R es (visited @ [n]) n rest)"

text \<open>Two worlds with the same positions that agree on who is active outside \<open>visited\<close>.\<close>

definition same_outside :: "ref list \<Rightarrow> world \<Rightarrow> world \<Rightarrow> bool" where
  "same_outside visited w w' \<longleftrightarrow>
     (\<forall>e. posX (heap w' e) = posX (heap w e) \<and> posY (heap w' e) = posY (heap w e)) \<and>
     (\<forall>e. e \<notin> set visited \<longrightarrow> active (heap w' e) = active (heap w e))"


text \<open>
  An arena: the tower at reference 0 (the constructor puts it at the origin) and, at the
  references 2, 3 and 4, three enemies with health 5 on the x axis, at 10, 20 and 200.
\<close>

definition enemy_at :: "real \<Rightarrow> real \<Rightarrow> real \<Rightarrow> entity" where
  "enemy_at px py h = (new_Enemy (dummyData\<lparr>d_health := Some h\<rparr>) 0 0)\<lparr>posX := px, posY := py\<rparr>"

definition arena :: world where
  "arena = \<lparr>heap = (\<lambda>_. new_Tower dummyData)(2 := enemy_at 10 0 5, 3 := enemy_at 20 0 5, 4 := enemy_at 200 0 5),
            allocated = 5, pool = [], activeSet = [], factory = EnemyClass,
            config = \<lparr>initialSize = 10, maxSize = 50, growthFactor = 3/2\<rparr>,
            totalCreated = 5, totalReused = 0, rng = (\<lambda>_. 0), rngPos = 0, trace = []\<rparr>"

definition weapons0 :: weapon_system where
  "weapons0 = \<lparr>tower = Some 0, targetingMode = NEAREST, lastFireTimes = Map.empty, projectiles = [],
               nextProjectileId = 0, totalDamageDealt = 0, enemiesKilled = 0, projectilesFired = 0,
               shotsHit = 0, damageLog = []\<rparr>"

text \<open>Three entries of the weapon catalog, and a shell in flight at the first enemy.\<close>

definition chain_lightning :: weapon_config where
  "chain_lightning = \<lparr>wtype = energy, wname = ''Chain Lightning'', damage = 2, wrange = 160,
      fireRate = 33/100, projectileSpeed = None, areaOfEffect = Some 80, piercing = Some False,
      homing = Some True, continuous = None\<rparr>"




section \<open>The wave manager (WaveManager)\<close>

text \<open>
  What the spawn scheduler reads and writes. The type mix of a wave
  (\<open>calculateEnemyDistribution\<close>) and the shuffle are left out; the entity that
  \<open>spawnNextEnemy\<close> asks the entity manager to create is recorded by its queue entry.
\<close>

record queue_entry =
  q_type :: string
  q_health :: real
  q_speed :: real
  q_damage :: real
  q_reward :: real

record wave_config =
  waveNumber :: nat
  enemyCount :: real
  spawnDelay :: real
  wc_nextWaveDelay :: real

record wave_manager =
  currentWave :: nat
  enemiesRemainingToSpawn :: int
  timeSinceLastSpawn :: real
  spawningEnemies :: bool
  baseEnemyCount :: real
  enemyCountIncrease :: real
  baseSpawnDelay :: real
  nextWaveDelay :: real
  spawnQueue :: "queue_entry list"
  spawned :: "queue_entry list"

definition generateWaveConfig :: "wave_manager \<Rightarrow> nat \<Rightarrow> wave_config" where
  "generateWaveConfig wm n =
     \<lparr>waveNumber = n,
      enemyCount = baseEnemyCount wm + (real n - 1) * enemyCountIncrease wm,
      spawnDelay = max (1/2) (baseSpawnDelay wm - (real n - 1) * (1/10)),
      wc_nextWaveDelay = nextWaveDelay wm\<rparr>"

definition spawnNextEnemy :: "wave_manager \<Rightarrow> wave_manager" where
  "spawnNextEnemy wm =
     (case spawnQueue wm of
        [] \<Rightarrow> wm\<lparr>spawningEnemies := False\<rparr>
      | enemyData # rest \<Rightarrow>
          wm\<lparr>spawnQueue := rest, spawned := spawned wm @ [enemyData],
             enemiesRemainingToSpawn := enemiesRemainingToSpawn wm - 1\<rparr>)"

definition updateWaveSpawning :: "real \<Rightarrow> wave_manager \<Rightarrow> wave_manager" where
  "updateWaveSpawning deltaTime wm =
     (if \<not> spawningEnemies wm \<or> length (spawnQueue wm) = 0 then wm\<lparr>spawningEnemies := False\<rparr>
      else
        let wm1 = wm\<lparr>timeSinceLastSpawn := timeSinceLastSpawn wm + deltaTime\<rparr>;
            delay = max (1/2) (baseSpawnDelay wm1 - (real (currentWave wm1) - 1) * (5/100))
        in if timeSinceLastSpawn wm1 \<ge> delay
           then (spawnNextEnemy wm1)\<lparr>timeSinceLastSpawn := 0\<rparr>
           else wm1)"

text \<open>The manager as \<open>startNextWave\<close> leaves it at the start of a wave, one agent queued.\<close>

definition wave_started :: "nat \<Rightarrow> wave_manager" where
  "wave_started n =
     \<lparr>currentWave = n, enemiesRemainingToSpawn = 1, timeSinceLastSpawn = 0, spawningEnemies = True,
      baseEnemyCount = 4, enemyCountIncrease = 2, baseSpawnDelay = 3/2, nextWaveDelay = 5,
      spawnQueue = [\<lparr>q_type = ''basic'', q_health = 1, q_speed = 50, q_damage = 1, q_reward = 10\<rparr>],
      spawned = []\<rparr>"

section \<open>Properties of entities and of the pool\<close>

lemma put_fields [simp]:
  "heap (put r e w) = (heap w)(r := e)"
  "allocated (put r e w) = allocated w"
  "pool (put r e w) = pool w"
  "activeSet (put r e w) = activeSet w"
  "factory (put r e w) = factory w"
  "config (put r e w) = config w"
  "totalCreated (put r e w) = totalCreated w"
  "totalReused (put r e w) = totalReused w"
  "rng (put r e w) = rng w"
  "rngPos (put r e w) = rngPos w"
  "trace (put r e w) = trace w"
  by (simp_all add: put_def)

lemma emit_fields [simp]:
  "heap (emit ev w) = heap w"
  "allocated (emit ev w) = allocated w"
  "pool (emit ev w) = pool w"
  "activeSet (emit ev w) = activeSet w"
  "factory (emit ev w) = factory w"
  "config (emit ev w) = config w"
  "totalCreated (emit ev w) = totalCreated w"
  "totalReused (emit ev w) = totalReused w"
  "rng (emit ev w) = rng w"
  "rngPos (emit ev w) = rngPos w"
  "trace (emit ev w) = trace w @ [ev]"
  by (simp_all add: emit_def)

lemma release_fields:
  "heap (release r w) =
     (if pooled (heap w r) \<and> r \<in> set (activeSet w) then (heap w)(r := (heap w r)\<lparr>active := False\<rparr>) else heap w)"
  "activeSet (release r w) =
     (if pooled (heap w r) \<and> r \<in> set (activeSet w) then removeAll r (activeSet w) else activeSet w)"
  "pool (release r w) =
     (if pooled (heap w r) \<and> r \<in> set (activeSet w) \<and> length (pool w) < maxSize (config w)
      then pool w @ [r] else pool w)"
  "trace (release r w) =
     (if pooled (heap w r) \<and> r \<in> set (activeSet w) then trace w else trace w @ [ReleaseWarning r])"
  "config (release r w) = config w"
  "allocated (release r w) = allocated w"
  "factory (release r w) = factory w"
  "totalCreated (release r w) = totalCreated w"
  "totalReused (release r w) = totalReused w"
  "rng (release r w) = rng w"
  "rngPos (release r w) = rngPos w"
  by (simp_all add: release_def Let_def set_delete_def)

lemma try_callback_simps:
  "try_callback r PoolRelease w = release r w"
  "try_callback r (Listener tag False) w = emit (ListenerRan tag r) w"
  "try_callback r (Listener tag True) w = emit (ListenerError tag r) w"
  by (simp_all add: try_callback_def call_callback_def)

lemma active_False_idem: "\<not> active e \<Longrightarrow> e\<lparr>active := False\<rparr> = e"
  by (cases e) simp

lemma callbacks_frame:
  "config (fold (try_callback r) cbs w) = config w"
  "allocated (fold (try_callback r) cbs w) = allocated w"
  "factory (fold (try_callback r) cbs w) = factory w"
  "totalCreated (fold (try_callback r) cbs w) = totalCreated w"
  "totalReused (fold (try_callback r) cbs w) = totalReused w"
  "rng (fold (try_callback r) cbs w) = rng w"
  "rngPos (fold (try_callback r) cbs w) = rngPos w"
proof (induction cbs arbitrary: w)
  case Nil
  { case 1 show ?case by simp }
  { case 2 show ?case by simp }
  { case 3 show ?case by simp }
  { case 4 show ?case by simp }
  { case 5 show ?case by simp }
  { case 6 show ?case by simp }
  { case 7 show ?case by simp }
next
  case (Cons cb cbs)
  have step: "config (try_callback r cb w) = config w \<and> allocated (try_callback r cb w) = allocated w
      \<and> factory (try_callback r cb w) = factory w \<and> totalCreated (try_callback r cb w) = totalCreated w
      \<and> totalReused (try_callback r cb w) = totalReused w \<and> rng (try_callback r cb w) = rng w
      \<and> rngPos (try_callback r cb w) = rngPos w" for w
  proof (cases cb)
    case PoolRelease
    then show ?thesis by (simp add: try_callback_simps release_fields)
  next
    case (Listener tag throws)
    then show ?thesis by (cases throws) (simp_all add: try_callback_simps)
  qed
  { case 1 show ?case using Cons.IH(1) step by simp }
  { case 2 show ?case using Cons.IH(2) step by simp }
  { case 3 show ?case using Cons.IH(3) step by simp }
  { case 4 show ?case using Cons.IH(4) step by simp }
  { case 5 show ?case using Cons.IH(5) step by simp }
  { case 6 show ?case using Cons.IH(6) step by simp }
  { case 7 show ?case using Cons.IH(7) step by simp }
qed

lemma callbacks_heap:
  "\<not> active (heap w r) \<Longrightarrow> heap (fold (try_callback r) cbs w) = heap w"
proof (induction cbs arbitrary: w)
  case Nil
  then show ?case by simp
next
  case (Cons cb cbs)
  have "heap (try_callback r cb w) = heap w"
  proof (cases cb)
    case PoolRelease
    then show ?thesis using Cons.prems
      by (simp add: try_callback_simps release_fields active_False_idem)
  next
    case (Listener tag throws)
    then show ?thesis by (cases throws) (simp_all add: try_callback_simps)
  qed
  with Cons show ?case by simp
qed

lemma callbacks_sets:
  assumes "\<not> active (heap w r)"
  shows "activeSet (fold (try_callback r) cbs w) =
           (if PoolRelease \<in> set cbs \<and> pooled (heap w r) \<and> r \<in> set (activeSet w)
            then removeAll r (activeSet w) else activeSet w)
       \<and> pool (fold (try_callback r) cbs w) =
           (if PoolRelease \<in> set cbs \<and> pooled (heap w r) \<and> r \<in> set (activeSet w)
               \<and> length (pool w) < maxSize (config w)
            then pool w @ [r] else pool w)"
  using assms
proof (induction cbs arbitrary: w)
  case Nil
  then show ?case by simp
next
  case (Cons cb cbs)
  show ?case
  proof (cases cb)
    case PoolRelease
    let ?w = "release r w"
    have h: "heap ?w = heap w"
      using Cons.prems by (simp add: release_fields active_False_idem)
    then have na: "\<not> active (heap ?w r)" using Cons.prems by simp
    show ?thesis
      using Cons.IH [OF na] h PoolRelease
      by (simp add: try_callback_simps release_fields)
  next
    case (Listener tag throws)
    let ?w = "try_callback r cb w"
    have h: "heap ?w = heap w \<and> activeSet ?w = activeSet w \<and> pool ?w = pool w \<and> config ?w = config w"
      using Listener by (cases throws) (simp_all add: try_callback_simps)
    then have na: "\<not> active (heap ?w r)" using Cons.prems by simp
    show ?thesis
      using Cons.IH [OF na] h Listener by simp
  qed
qed

lemma callbacks_count:
  assumes "\<And>t. ev \<noteq> ListenerRan t r" "\<And>t. ev \<noteq> ListenerError t r" "ev \<noteq> ReleaseWarning r"
  shows "count_list (trace (fold (try_callback r) cbs w)) ev = count_list (trace w) ev"
proof (induction cbs arbitrary: w)
  case Nil
  then show ?case by simp
next
  case (Cons cb cbs)
  have "count_list (trace (try_callback r cb w)) ev = count_list (trace w) ev"
  proof (cases cb)
    case PoolRelease
    then show ?thesis using assms(3) by (simp add: try_callback_simps release_fields)
  next
    case (Listener tag throws)
    then show ?thesis using assms(1,2) [of tag] by (cases throws) (auto simp: try_callback_simps)
  qed
  with Cons show ?case by simp
qed

lemma callbacks_trace_grows:
  "\<exists>evs. trace (fold (try_callback r) cbs w) = trace w @ evs"
proof (induction cbs arbitrary: w)
  case Nil
  then show ?case by simp
next
  case (Cons cb cbs)
  have "\<exists>evs. trace (try_callback r cb w) = trace w @ evs"
  proof (cases cb)
    case PoolRelease
    then show ?thesis by (simp add: try_callback_simps release_fields)
  next
    case (Listener tag throws)
    then show ?thesis by (cases throws) (simp_all add: try_callback_simps)
  qed
  then obtain e1 where e1: "trace (try_callback r cb w) = trace w @ e1" ..
  from Cons.IH [of "try_callback r cb w"] obtain e2
    where "trace (fold (try_callback r) cbs (try_callback r cb w)) = trace (try_callback r cb w) @ e2" ..
  with e1 show ?case by simp
qed

text \<open>\<open>destroy\<close>, field by field.\<close>

lemma destroy_inactive: "\<not> active (heap w r) \<Longrightarrow> destroy r w = emit (DestroyWarning r) w"
  by (simp add: destroy_def)

lemma destroy_fields:
  assumes "active (heap w r)"
  shows "heap (destroy r w) = (heap w)(r := (heap w r)\<lparr>active := False\<rparr>)"
    and "activeSet (destroy r w) =
           (if PoolRelease \<in> set (onDestroyCallbacks (heap w r)) \<and> pooled (heap w r) \<and> r \<in> set (activeSet w)
            then removeAll r (activeSet w) else activeSet w)"
    and "pool (destroy r w) =
           (if PoolRelease \<in> set (onDestroyCallbacks (heap w r)) \<and> pooled (heap w r) \<and> r \<in> set (activeSet w)
               \<and> length (pool w) < maxSize (config w)
            then pool w @ [r] else pool w)"
    and "config (destroy r w) = config w"
    and "allocated (destroy r w) = allocated w"
    and "factory (destroy r w) = factory w"
    and "totalCreated (destroy r w) = totalCreated w"
    and "totalReused (destroy r w) = totalReused w"
    and "rng (destroy r w) = rng w"
    and "rngPos (destroy r w) = rngPos w"
proof -
  let ?w1 = "put r ((heap w r)\<lparr>active := False\<rparr>) w"
  have na: "\<not> active (heap ?w1 r)" by simp
  have d: "destroy r w = emit (TeardownRan r) (fold (try_callback r) (onDestroyCallbacks (heap w r)) ?w1)"
    using assms by (simp add: destroy_def Let_def)
  show "heap (destroy r w) = (heap w)(r := (heap w r)\<lparr>active := False\<rparr>)"
    using callbacks_heap [OF na] by (simp add: d)
  show "activeSet (destroy r w) =
           (if PoolRelease \<in> set (onDestroyCallbacks (heap w r)) \<and> pooled (heap w r) \<and> r \<in> set (activeSet w)
            then removeAll r (activeSet w) else activeSet w)"
    using callbacks_sets [OF na, of "onDestroyCallbacks (heap w r)"] by (simp add: d)
  show "pool (destroy r w) =
           (if PoolRelease \<in> set (onDestroyCallbacks (heap w r)) \<and> pooled (heap w r) \<and> r \<in> set (activeSet w)
               \<and> length (pool w) < maxSize (config w)
            then pool w @ [r] else pool w)"
    using callbacks_sets [OF na, of "onDestroyCallbacks (heap w r)"] by (simp add: d)
  show "config (destroy r w) = config w" by (simp add: d callbacks_frame)
  show "allocated (destroy r w) = allocated w" by (simp add: d callbacks_frame)
  show "factory (destroy r w) = factory w" by (simp add: d callbacks_frame)
  show "totalCreated (destroy r w) = totalCreated w" by (simp add: d callbacks_frame)
  show "totalReused (destroy r w) = totalReused w" by (simp add: d callbacks_frame)
  show "rng (destroy r w) = rng w" by (simp add: d callbacks_frame)
  show "rngPos (destroy r w) = rngPos w" by (simp add: d callbacks_frame)
qed

lemma spawnAtEdge_keeps [simp]:
  "cls (spawnAtEdge r1 r2 e) = cls e"
  "health (spawnAtEdge r1 r2 e) = health e"
  "maxHealth (spawnAtEdge r1 r2 e) = maxHealth e"
  "radius (spawnAtEdge r1 r2 e) = radius e"
  "active (spawnAtEdge r1 r2 e) = active e"
  "pooled (spawnAtEdge r1 r2 e) = pooled e"
  "onDestroyCallbacks (spawnAtEdge r1 r2 e) = onDestroyCallbacks e"
  "onDamageCallbacks (spawnAtEdge r1 r2 e) = onDamageCallbacks e"
  "speed (spawnAtEdge r1 r2 e) = speed e"
  by (simp_all add: spawnAtEdge_def Let_def)

lemma onReset_keeps [simp]:
  "cls (onReset d r1 r2 e) = cls e"
  "health (onReset d r1 r2 e) = health e"
  "maxHealth (onReset d r1 r2 e) = maxHealth e"
  "radius (onReset d r1 r2 e) = radius e"
  "active (onReset d r1 r2 e) = active e"
  "pooled (onReset d r1 r2 e) = pooled e"
  "onDestroyCallbacks (onReset d r1 r2 e) = onDestroyCallbacks e"
  "onDamageCallbacks (onReset d r1 r2 e) = onDamageCallbacks e"
  by (simp_all add: onReset_def split: entity_class.splits)

lemma reset_entity_fields [simp]:
  "cls (reset_entity d r1 r2 e) = cls e"
  "health (reset_entity d r1 r2 e) = js_or (d_health d) 1"
  "maxHealth (reset_entity d r1 r2 e) = js_or (d_maxHealth d) (js_or (d_health d) 1)"
  "radius (reset_entity d r1 r2 e) = js_or (d_radius d) 10"
  "active (reset_entity d r1 r2 e) = True"
  "pooled (reset_entity d r1 r2 e) = pooled e"
  "onDestroyCallbacks (reset_entity d r1 r2 e) = []"
  "onDamageCallbacks (reset_entity d r1 r2 e) = []"
  by (simp_all add: reset_entity_def Let_def)



lemma reset_entity_active_irrelevant:
  "reset_entity d r1 r2 (e\<lparr>active := b\<rparr>) = reset_entity d r1 r2 e"
  by (simp add: reset_entity_def Let_def)

lemma reset_fields [simp]:
  "heap (reset d r w) = (heap w)(r := reset_entity d (rng w (rngPos w)) (rng w (rngPos w + 1)) (heap w r))"
  "allocated (reset d r w) = allocated w"
  "pool (reset d r w) = pool w"
  "activeSet (reset d r w) = activeSet w"
  "factory (reset d r w) = factory w"
  "config (reset d r w) = config w"
  "totalCreated (reset d r w) = totalCreated w"
  "totalReused (reset d r w) = totalReused w"
  "rng (reset d r w) = rng w"
  "rngPos (reset d r w) = rngPos w + draws (cls (heap w r))"
  "trace (reset d r w) = trace w"
  by (simp_all add: reset_def Let_def)

lemma createNewEntity_fields:
  "fst (createNewEntity w) = allocated w"
  "allocated (snd (createNewEntity w)) = Suc (allocated w)"
  "pool (snd (createNewEntity w)) = pool w"
  "activeSet (snd (createNewEntity w)) = activeSet w"
  "factory (snd (createNewEntity w)) = factory w"
  "config (snd (createNewEntity w)) = config w"
  "rng (snd (createNewEntity w)) = rng w"
  "trace (snd (createNewEntity w)) = trace w"
  "r \<noteq> allocated w \<Longrightarrow> heap (snd (createNewEntity w)) r = heap w r"
  "cls (heap (snd (createNewEntity w)) (allocated w)) = factory w"
  by (simp_all add: createNewEntity_def Let_def new_Tower_def new_Enemy_def new_Entity_def
        split: entity_class.splits)

text \<open>\<open>acquire\<close>, case by case.\<close>

lemma acquire_reuse:
  assumes "pool w \<noteq> []"
  shows "fst (acquire d w) = last (pool w)"
    and "pool (snd (acquire d w)) = butlast (pool w)"
    and "activeSet (snd (acquire d w)) = set_add (last (pool w)) (activeSet w)"
    and "heap (snd (acquire d w)) = (heap w)(last (pool w) := acquired d w (last (pool w)))"
    and "config (snd (acquire d w)) = config w"
    and "rng (snd (acquire d w)) = rng w"
    and "trace (snd (acquire d w)) = trace w"
  using assms by (simp_all add: acquire_def acquired_def Let_def onDestroyed_def)

lemma acquire_forced:
  assumes "pool w = []" "\<not> length (activeSet w) < maxSize (config w)" "activeSet w = a # rest"
  shows "fst (acquire d w) = a"
    and "pool (snd (acquire d w)) = pool (destroy a w)"
    and "activeSet (snd (acquire d w)) = set_add a (activeSet (destroy a w))"
    and "heap (snd (acquire d w)) = (heap w)(a := acquired d w a)"
    and "config (snd (acquire d w)) = config w"
proof -
  have f: "acquire d w =
      (a, onDestroyed PoolRelease a
            ((put a ((heap (reset d a (destroy a w)) a)\<lparr>pooled := True\<rparr>) (reset d a (destroy a w)))
               \<lparr>activeSet := set_add a (activeSet (reset d a (destroy a w)))\<rparr>))"
    using assms by (simp add: acquire_def forceReuse_def Let_def)
  show "fst (acquire d w) = a" by (simp add: f)
  show "pool (snd (acquire d w)) = pool (destroy a w)" by (simp add: f onDestroyed_def)
  show "activeSet (snd (acquire d w)) = set_add a (activeSet (destroy a w))"
    by (simp add: f onDestroyed_def)
  have frame: "rng (destroy a w) = rng w \<and> rngPos (destroy a w) = rngPos w \<and> config (destroy a w) = config w"
    by (cases "active (heap w a)") (simp_all add: destroy_inactive destroy_fields)
  have h: "heap (destroy a w) = (heap w)(a := (heap w a)\<lparr>active := False\<rparr>)"
    by (cases "active (heap w a)") (simp_all add: destroy_inactive destroy_fields active_False_idem)
  show "heap (snd (acquire d w)) = (heap w)(a := acquired d w a)"
    by (simp add: f onDestroyed_def acquired_def frame h reset_entity_active_irrelevant)
  show "config (snd (acquire d w)) = config w"
    by (simp add: f onDestroyed_def frame)
qed

lemma acquire_create:
  assumes "pool w = []" "length (activeSet w) < maxSize (config w)"
  shows "fst (acquire d w) = allocated w"
    and "pool (snd (acquire d w)) = []"
    and "activeSet (snd (acquire d w)) = set_add (allocated w) (activeSet w)"
    and "config (snd (acquire d w)) = config w"
  using assms
  by (simp_all add: acquire_def Let_def onDestroyed_def split_beta createNewEntity_fields)

lemma acquired_fields [simp]:
  "cls (acquired d w r) = cls (heap w r)"
  "health (acquired d w r) = js_or (d_health d) 1"
  "maxHealth (acquired d w r) = js_or (d_maxHealth d) (js_or (d_health d) 1)"
  "radius (acquired d w r) = js_or (d_radius d) 10"
  "active (acquired d w r) = True"
  "pooled (acquired d w r) = True"
  "onDestroyCallbacks (acquired d w r) = [PoolRelease]"
  "onDamageCallbacks (acquired d w r) = []"
  by (simp_all add: acquired_def)

lemma preallocate_fields:
  "pool (preallocate n w) = pool w @ [allocated w ..< allocated w + n]"
  "activeSet (preallocate n w) = activeSet w"
  "config (preallocate n w) = config w"
  "allocated (preallocate n w) = allocated w + n"
proof (induction n arbitrary: w)
  case 0
  { case 1 show ?case by simp }
  { case 2 show ?case by simp }
  { case 3 show ?case by simp }
  { case 4 show ?case by simp }
next
  case (Suc n)
  { case 1 show ?case
      by (simp add: Suc.IH split_beta Let_def createNewEntity_fields upt_conv_Cons) }
  { case 2 show ?case
      by (simp add: Suc.IH split_beta Let_def createNewEntity_fields) }
  { case 3 show ?case
      by (simp add: Suc.IH split_beta Let_def createNewEntity_fields) }
  { case 4 show ?case
      by (simp add: Suc.IH split_beta Let_def createNewEntity_fields) }
qed

lemma new_EntityPool_fields:
  "pool (new_EntityPool c i m gf g) = [0 ..< js_or_nat i 10]"
  "activeSet (new_EntityPool c i m gf g) = []"
  "maxSize (config (new_EntityPool c i m gf g)) = js_or_nat m 100"
  by (simp_all add: new_EntityPool_def Let_def preallocate_fields)

lemma listener_runs_append [simp]: "listener_runs (xs @ ys) = listener_runs xs @ listener_runs ys"
  by (induction xs rule: listener_runs.induct) simp_all

lemma callbacks_runs:
  "listener_runs (trace (fold (try_callback r) cbs w)) =
     listener_runs (trace w) @ map (\<lambda>t. (t, r)) (ran_tags cbs)"
proof (induction cbs arbitrary: w)
  case Nil
  then show ?case by simp
next
  case (Cons cb cbs)
  show ?case
  proof (cases cb)
    case PoolRelease
    then show ?thesis by (simp add: Cons.IH try_callback_simps release_fields)
  next
    case (Listener tag throws)
    then show ?thesis by (cases throws) (simp_all add: Cons.IH try_callback_simps)
  qed
qed

lemma destroy_trace:
  assumes "active (heap w r)"
  shows "trace (destroy r w) =
     trace (fold (try_callback r) (onDestroyCallbacks (heap w r)) (put r ((heap w r)\<lparr>active := False\<rparr>) w))
       @ [TeardownRan r]"
  using assms by (simp add: destroy_def Let_def)

lemma destroy_calls_destroy: "destroy_calls r (trace (destroy r w)) = Suc (destroy_calls r (trace w))"
proof (cases "active (heap w r)")
  case True
  then show ?thesis
    by (simp add: destroy_trace destroy_calls_def callbacks_count)
next
  case False
  then show ?thesis by (simp add: destroy_inactive destroy_calls_def)
qed

lemma damage_listeners_fields:
  "heap (fold (\<lambda>tag. emit (DamageListenerRan tag r amount)) tags w) = heap w"
  "trace (fold (\<lambda>tag. emit (DamageListenerRan tag r amount)) tags w) =
     trace w @ map (\<lambda>tag. DamageListenerRan tag r amount) tags"
  "pool (fold (\<lambda>tag. emit (DamageListenerRan tag r amount)) tags w) = pool w"
  "activeSet (fold (\<lambda>tag. emit (DamageListenerRan tag r amount)) tags w) = activeSet w"
  "config (fold (\<lambda>tag. emit (DamageListenerRan tag r amount)) tags w) = config w"
  by (induction tags arbitrary: w) simp_all


text \<open>
  Claim C2, as amended: for every pooled object in the active set, \<open>release\<close> removes it
  from the active set, marks it inactive, and appends it to the free list if and only if the
  free list is shorter than \<open>maxSize\<close> (not half of \<open>maxSize\<close>); otherwise the
  free list is unchanged.
\<close>

theorem release_pushes_below_maxSize:
  assumes "pooled (heap w obj)" and "obj \<in> set (activeSet w)"
  shows "obj \<notin> set (activeSet (release obj w))
       \<and> \<not> active (heap (release obj w) obj)
       \<and> pool (release obj w) = (if length (pool w) < maxSize (config w) then pool w @ [obj] else pool w)"
  using assms by (simp add: release_fields)


text \<open>
  Claim C10: whatever destroy callbacks are registered on a live entity, throwing ones
  included, \<open>destroy\<close> runs every callback that does not throw, in registration order,
  runs the teardown hook last and once, lets the pool's release callback take the object out
  of the active set, and leaves the entity inactive: no exception of a callback stops it.
\<close>

theorem destroy_survives_throwing_callbacks:
  assumes "active (heap w r)"
  shows "listener_runs (trace (destroy r w)) =
           listener_runs (trace w) @ map (\<lambda>t. (t, r)) (ran_tags (onDestroyCallbacks (heap w r)))
       \<and> last (trace (destroy r w)) = TeardownRan r
       \<and> count_list (trace (destroy r w)) (TeardownRan r) = Suc (count_list (trace w) (TeardownRan r))
       \<and> (PoolRelease \<in> set (onDestroyCallbacks (heap w r)) \<and> pooled (heap w r) \<longrightarrow>
            r \<notin> set (activeSet (destroy r w)))
       \<and> \<not> active (heap (destroy r w) r)"
  using assms
  by (simp add: destroy_trace callbacks_runs callbacks_count destroy_fields)

lemma acquire_forced_trace:
  assumes "pool w = []" "\<not> length (activeSet w) < maxSize (config w)" "activeSet w = a # rest"
  shows "trace (snd (acquire d w)) = trace (destroy a w)"
  using assms by (simp add: acquire_def forceReuse_def Let_def onDestroyed_def)

lemma destroy_calls_other:
  assumes "r' \<noteq> r"
  shows "destroy_calls r' (trace (destroy r w)) = destroy_calls r' (trace w)"
proof (cases "active (heap w r)")
  case True
  then show ?thesis using assms
    by (simp add: destroy_trace destroy_calls_def callbacks_count)
next
  case False
  then show ?thesis using assms by (simp add: destroy_inactive destroy_calls_def)
qed

lemma destroy_activeSet_cases:
  "activeSet (destroy r w) =
     (if active (heap w r) \<and> PoolRelease \<in> set (onDestroyCallbacks (heap w r)) \<and> pooled (heap w r)
         \<and> r \<in> set (activeSet w)
      then removeAll r (activeSet w) else activeSet w)"
  by (cases "active (heap w r)") (simp_all add: destroy_inactive destroy_fields)

lemma destroy_pool_cases:
  "pool (destroy r w) =
     (if active (heap w r) \<and> PoolRelease \<in> set (onDestroyCallbacks (heap w r)) \<and> pooled (heap w r)
         \<and> r \<in> set (activeSet w) \<and> length (pool w) < maxSize (config w)
      then pool w @ [r] else pool w)"
  by (cases "active (heap w r)") (simp_all add: destroy_inactive destroy_fields)

text \<open>
  What a forced reuse evicts is the first member of the active Set in insertion order:
  with \<open>maxSize = 2\<close>, an empty free list and the active set \<open>[a, b]\<close>, \<open>acquire\<close>
  returns \<open>a\<close>, calls \<open>destroy\<close> on \<open>a\<close> once and on \<open>b\<close> not at all, resets
  \<open>a\<close> and leaves \<open>b\<close> alone, and the active set holds exactly the two objects
  afterwards.
\<close>

lemma acquire_evicts_set_head:
  assumes "maxSize (config w) = 2" and "pool w = []" and "activeSet w = [a, b]" and "a \<noteq> b"
  shows "fst (acquire d w) = a
       \<and> length (activeSet (snd (acquire d w))) = 2
       \<and> set (activeSet (snd (acquire d w))) = {a, b}
       \<and> heap (snd (acquire d w)) a = acquired d w a
       \<and> heap (snd (acquire d w)) b = heap w b
       \<and> destroy_calls a (trace (snd (acquire d w))) = Suc (destroy_calls a (trace w))
       \<and> destroy_calls b (trace (snd (acquire d w))) = destroy_calls b (trace w)
       \<and> (active (heap w a) \<and> pooled (heap w a) \<and> PoolRelease \<in> set (onDestroyCallbacks (heap w a))
            \<longrightarrow> activeSet (snd (acquire d w)) = [b, a])"
proof -
  have full: "\<not> length (activeSet w) < maxSize (config w)" using assms by simp
  note f = acquire_forced [OF assms(2) full assms(3)] acquire_forced_trace [OF assms(2) full assms(3)]
  show ?thesis using assms(3,4)
    by (auto simp: f destroy_activeSet_cases set_add_def destroy_calls_destroy destroy_calls_other)
qed

lemma createNewEntity_new:
  "\<not> pooled (heap (snd (createNewEntity w)) (allocated w))"
  "onDestroyCallbacks (heap (snd (createNewEntity w)) (allocated w)) = []"
  "viewportWidth (heap (snd (createNewEntity w)) (allocated w)) = None"
  "viewportHeight (heap (snd (createNewEntity w)) (allocated w)) = None"
  by (simp_all add: createNewEntity_def Let_def new_Tower_def new_Enemy_def new_Entity_def
        spawnAtEdge_def dummyData_def split: entity_class.splits)

lemma preallocate_heap_old: "r < allocated w \<Longrightarrow> heap (preallocate n w) r = heap w r"
proof (induction n arbitrary: w)
  case 0
  then show ?case by simp
next
  case (Suc n)
  then show ?case
    by (simp add: split_beta Let_def createNewEntity_fields)
qed

lemma preallocate_factory: "factory (preallocate n w) = factory w"
  by (induction n arbitrary: w) (simp_all add: split_beta Let_def createNewEntity_fields)

lemma preallocate_heap_new:
  "allocated w \<le> r \<Longrightarrow> r < allocated w + n \<Longrightarrow>
     \<not> active (heap (preallocate n w) r) \<and> pooled (heap (preallocate n w) r)
     \<and> cls (heap (preallocate n w) r) = factory w
     \<and> viewportWidth (heap (preallocate n w) r) = None
     \<and> viewportHeight (heap (preallocate n w) r) = None"
proof (induction n arbitrary: w)
  case 0
  then show ?case by simp
next
  case (Suc n)
  let ?c = "createNewEntity w"
  let ?w2 = "put (fst ?c) ((heap (snd ?c) (fst ?c))\<lparr>pooled := True, active := False\<rparr>) (snd ?c)"
  let ?w3 = "?w2\<lparr>pool := pool ?w2 @ [fst ?c]\<rparr>"
  have p: "preallocate (Suc n) w = preallocate n ?w3" by (simp add: split_beta Let_def)
  have al: "allocated ?w3 = Suc (allocated w)" by (simp add: createNewEntity_fields)
  have fa: "factory ?w3 = factory w" by (simp add: createNewEntity_fields)
  show ?case
  proof (cases "r = allocated w")
    case True
    have "r < allocated ?w3" using True by (simp only: al)
    then have h: "heap (preallocate n ?w3) r = heap ?w3 r"
      by (rule preallocate_heap_old)
    have "heap ?w3 r = (heap (snd ?c) (allocated w))\<lparr>pooled := True, active := False\<rparr>"
      using True by (simp add: createNewEntity_fields)
    then show ?thesis
      unfolding p h by (simp add: createNewEntity_fields createNewEntity_new)
  next
    case False
    then have "allocated ?w3 \<le> r" "r < allocated ?w3 + n" using Suc.prems by (simp_all add: createNewEntity_fields)
    from Suc.IH [OF this] show ?thesis by (simp add: split_beta Let_def createNewEntity_fields)
  qed
qed

lemma new_EntityPool_heap:
  "r < js_or_nat i 10 \<Longrightarrow>
     \<not> active (heap (new_EntityPool c i m gf g) r) \<and> pooled (heap (new_EntityPool c i m gf g) r)
     \<and> cls (heap (new_EntityPool c i m gf g) r) = c
     \<and> viewportWidth (heap (new_EntityPool c i m gf g) r) = None
     \<and> viewportHeight (heap (new_EntityPool c i m gf g) r) = None"
  using preallocate_heap_new [of "\<lparr>heap = (\<lambda>_. new_Tower dummyData), allocated = 0, pool = [], activeSet = [],
               factory = c, config = \<lparr>initialSize = js_or_nat i 10,
                 maxSize = js_or_nat m 100,
                 growthFactor = js_or gf (3/2)\<rparr>, totalCreated = 0, totalReused = 0,
               rng = g, rngPos = 0, trace = []\<rparr>" r "js_or_nat i 10"]
  by (simp add: new_EntityPool_def Let_def)



lemma tower_pool_1_fields:
  "pool tower_pool_1 = [0]" "activeSet tower_pool_1 = []" "maxSize (config tower_pool_1) = 1"
  "\<not> active (heap tower_pool_1 0)"
  using new_EntityPool_heap [of 0 "Some 1" TowerClass "Some 1" None "\<lambda>_. 0"]
  by (simp_all add: tower_pool_1_def new_EntityPool_fields js_or_nat_def)

lemma tower_pool_1_acquired:
  "fst (acquire d tower_pool_1) = 0"
  "pool (snd (acquire d tower_pool_1)) = []"
  "activeSet (snd (acquire d tower_pool_1)) = [0]"
  "maxSize (config (snd (acquire d tower_pool_1))) = 1"
  "heap (snd (acquire d tower_pool_1)) 0 = acquired d tower_pool_1 0"
  "trace (snd (acquire d tower_pool_1)) = trace tower_pool_1"
  by (simp_all add: acquire_reuse tower_pool_1_fields set_add_def)

lemma tower_pool_1_forced:
  "fst (acquire d' (snd (acquire d tower_pool_1))) = 0"
  "pool (snd (acquire d' (snd (acquire d tower_pool_1)))) = [0]"
  "activeSet (snd (acquire d' (snd (acquire d tower_pool_1)))) = [0]"
proof -
  let ?w = "snd (acquire d tower_pool_1)"
  have a: "pool ?w = []" "\<not> length (activeSet ?w) < maxSize (config ?w)" "activeSet ?w = 0 # []"
    by (simp_all add: tower_pool_1_acquired)
  note f = acquire_forced [OF a]
  show "fst (acquire d' ?w) = 0" by (simp add: f)
  show "pool (snd (acquire d' ?w)) = [0]"
    by (simp add: f destroy_pool_cases tower_pool_1_acquired)
  show "activeSet (snd (acquire d' ?w)) = [0]"
    by (simp add: f destroy_activeSet_cases tower_pool_1_acquired set_add_def)
qed

text \<open>
  Claim C1: for every sequence of acquire and release operations the active set and the
  free list are disjoint and the active set holds at most \<open>maxSize\<close> objects. The code
  breaks it: on the tower pool of the game (\<open>initialSize = 1\<close>, \<open>maxSize = 1\<close>) the
  invariant holds after construction and after the first \<open>acquire\<close>; the second
  \<open>acquire\<close> finds the pool at capacity, \<open>forceReuse\<close> destroys the oldest object,
  whose destroy callback releases it onto the free list, and then hands the same object
  out: it is on the free list and in the active set at once.
\<close>

theorem forced_reuse_leaves_object_free_and_active:
  "pool_invariant tower_pool_1
   \<and> pool_invariant (run_ops [Acquire example_data] tower_pool_1)
   \<and> activeSet (run_ops [Acquire example_data, Acquire example_data] tower_pool_1) = [0]
   \<and> pool (run_ops [Acquire example_data, Acquire example_data] tower_pool_1) = [0]
   \<and> \<not> pool_invariant (run_ops [Acquire example_data, Acquire example_data] tower_pool_1)"
  by (simp add: pool_invariant_def run_ops_def tower_pool_1_fields tower_pool_1_acquired
        tower_pool_1_forced)

text \<open>
  The same happens at every forced reuse of a live object that came from the pool: it ends
  on the free list and in the active set.
\<close>

lemma forced_reuse_overlaps:
  assumes "pool w = []" and "activeSet w = a # rest" and "maxSize (config w) \<le> length (activeSet w)"
    and "0 < maxSize (config w)"
    and "active (heap w a)" and "pooled (heap w a)" and "PoolRelease \<in> set (onDestroyCallbacks (heap w a))"
  shows "a \<in> set (activeSet (snd (acquire d w))) \<inter> set (pool (snd (acquire d w)))"
proof -
  have full: "\<not> length (activeSet w) < maxSize (config w)" using assms(3) by simp
  note f = acquire_forced [OF assms(1) full assms(2)]
  show ?thesis
    using assms by (simp add: f destroy_activeSet_cases destroy_pool_cases set_add_def)
qed

lemma default_pool_2_fields:
  "pool default_pool_2 = [0 ..< 10]" "activeSet default_pool_2 = []" "maxSize (config default_pool_2) = 2"
  by (simp_all add: default_pool_2_def new_EntityPool_fields js_or_nat_def)

lemma upt_10: "[0 ..< 10] = [0, 1, 2, 3, 4, 5, 6, 7, 8, 9::nat]"
  by (simp add: upt_rec)

text \<open>
  The bound of C1 fails on its own as well: a pool built with \<open>maxSize = 2\<close> and the
  default \<open>initialSize\<close> holds ten free objects, and \<open>acquire\<close> hands them out
  without looking at \<open>maxSize\<close>.
\<close>

theorem preallocated_pool_exceeds_maxSize:
  "maxSize (config (run_ops [Acquire example_data, Acquire example_data, Acquire example_data] default_pool_2)) = 2
   \<and> activeSet (run_ops [Acquire example_data, Acquire example_data, Acquire example_data] default_pool_2) = [9, 8, 7]
   \<and> \<not> pool_invariant (run_ops [Acquire example_data, Acquire example_data, Acquire example_data] default_pool_2)"
  by (simp add: pool_invariant_def run_ops_def default_pool_2_fields acquire_reuse set_add_def upt_10)

lemma onDestroyed_fields [simp]:
  "heap (onDestroyed cb r w) = (heap w)(r := (heap w r)\<lparr>onDestroyCallbacks := onDestroyCallbacks (heap w r) @ [cb]\<rparr>)"
  "pool (onDestroyed cb r w) = pool w"
  "activeSet (onDestroyed cb r w) = activeSet w"
  "config (onDestroyed cb r w) = config w"
  "trace (onDestroyed cb r w) = trace w"
  by (simp_all add: onDestroyed_def)

lemma reset_entity_viewport [simp]:
  "viewportWidth (reset_entity d r1 r2 e) = viewportWidth e"
  "viewportHeight (reset_entity d r1 r2 e) = viewportHeight e"
  by (simp_all add: reset_entity_def onReset_def spawnAtEdge_def Let_def split: entity_class.splits)

lemma acquired_viewport [simp]:
  "viewportWidth (acquired d w r) = viewportWidth (heap w r)"
  "viewportHeight (acquired d w r) = viewportHeight (heap w r)"
  by (simp_all add: acquired_def)












lemma tower_pool_2_fields:
  "pool tower_pool_2 = [0, 1]" "activeSet tower_pool_2 = []" "maxSize (config tower_pool_2) = 2"
  by (simp_all add: tower_pool_2_def new_EntityPool_fields js_or_nat_def upt_rec)

lemma tower_pool_2_acquired:
  "pool (snd (acquire d tower_pool_2)) = [0]"
  "activeSet (snd (acquire d tower_pool_2)) = [1]"
  "maxSize (config (snd (acquire d tower_pool_2))) = 2"
  "heap (snd (acquire d tower_pool_2)) = (heap tower_pool_2)(1 := acquired d tower_pool_2 1)"
  by (simp_all add: acquire_reuse tower_pool_2_fields set_add_def)

lemma tower_pool_2_acquired_twice:
  "pool (snd (acquire d' (snd (acquire d tower_pool_2)))) = []"
  "activeSet (snd (acquire d' (snd (acquire d tower_pool_2)))) = [1, 0]"
  "maxSize (config (snd (acquire d' (snd (acquire d tower_pool_2))))) = 2"
  "heap (snd (acquire d' (snd (acquire d tower_pool_2)))) =
     (heap tower_pool_2)(1 := acquired d tower_pool_2 1, 0 := acquired d' (snd (acquire d tower_pool_2)) 0)"
  by (simp_all add: acquire_reuse tower_pool_2_acquired set_add_def)

text \<open>
  Claim C2 as stated fails: with \<open>maxSize = 2\<close> and one object on the free list, the
  length of the free list is not below half of \<open>maxSize\<close>, and \<open>release\<close> appends
  the object all the same.
\<close>

theorem release_half_cap_counterexample:
  "pooled (heap (snd (acquire example_data tower_pool_2)) 1)
   \<and> 1 \<in> set (activeSet (snd (acquire example_data tower_pool_2)))
   \<and> length (pool (snd (acquire example_data tower_pool_2))) = 1
   \<and> maxSize (config (snd (acquire example_data tower_pool_2))) = 2
   \<and> \<not> 2 * length (pool (snd (acquire example_data tower_pool_2)))
          < maxSize (config (snd (acquire example_data tower_pool_2)))
   \<and> pool (release 1 (snd (acquire example_data tower_pool_2))) = [0, 1]"
  by (simp add: tower_pool_2_acquired release_fields)

text \<open>Witness for C2.\<close>

theorem release_pushes_below_maxSize_witness:
  "pooled (heap (snd (acquire example_data tower_pool_2)) 1)
   \<and> 1 \<in> set (activeSet (snd (acquire example_data tower_pool_2)))
   \<and> 1 \<notin> set (activeSet (release 1 (snd (acquire example_data tower_pool_2))))
   \<and> \<not> active (heap (release 1 (snd (acquire example_data tower_pool_2))) 1)
   \<and> pool (release 1 (snd (acquire example_data tower_pool_2))) = [0, 1]"
proof -
  let ?w = "snd (acquire example_data tower_pool_2)"
  have a: "pooled (heap ?w 1)" "1 \<in> set (activeSet ?w)"
    by (simp_all add: tower_pool_2_acquired)
  from release_pushes_below_maxSize [OF a] a show ?thesis
    by (simp add: tower_pool_2_acquired)
qed


text \<open>Witness for C10: a throwing listener between the release callback and another listener.\<close>

theorem destroy_survives_throwing_callbacks_witness:
  "active (heap (onDestroyed (Listener 2 False) 0 (onDestroyed (Listener 1 True) 0
      (snd (acquire example_data tower_pool_1)))) 0)
   \<and> onDestroyCallbacks (heap (onDestroyed (Listener 2 False) 0 (onDestroyed (Listener 1 True) 0
      (snd (acquire example_data tower_pool_1)))) 0) = [PoolRelease, Listener 1 True, Listener 2 False]
   \<and> listener_runs (trace (destroy 0 (onDestroyed (Listener 2 False) 0 (onDestroyed (Listener 1 True) 0
      (snd (acquire example_data tower_pool_1)))))) = listener_runs (trace tower_pool_1) @ [(2, 0)]
   \<and> last (trace (destroy 0 (onDestroyed (Listener 2 False) 0 (onDestroyed (Listener 1 True) 0
      (snd (acquire example_data tower_pool_1)))))) = TeardownRan 0
   \<and> 0 \<notin> set (activeSet (destroy 0 (onDestroyed (Listener 2 False) 0 (onDestroyed (Listener 1 True) 0
      (snd (acquire example_data tower_pool_1))))))"
proof -
  let ?w = "onDestroyed (Listener 2 False) 0 (onDestroyed (Listener 1 True) 0
      (snd (acquire example_data tower_pool_1)))"
  have a: "active (heap ?w 0)" by (simp add: tower_pool_1_acquired)
  have c: "onDestroyCallbacks (heap ?w 0) = [PoolRelease, Listener 1 True, Listener 2 False]"
    "pooled (heap ?w 0)" "trace ?w = trace tower_pool_1"
    by (simp_all add: tower_pool_1_acquired)
  from destroy_survives_throwing_callbacks [OF a] a c show ?thesis
    by simp
qed

lemma acquire_reuse_allocated:
  "pool w \<noteq> [] \<Longrightarrow> allocated (snd (acquire d w)) = allocated w"
  by (simp add: acquire_def Let_def onDestroyed_def put_def)

lemma acquire_create_heap:
  assumes "pool w = []" "length (activeSet w) < maxSize (config w)"
  shows "heap (snd (acquire d w)) (allocated w) = acquired d (snd (createNewEntity w)) (allocated w)"
    and "r \<noteq> allocated w \<Longrightarrow> heap (snd (acquire d w)) r = heap w r"
  using assms
  by (simp_all add: acquire_def Let_def onDestroyed_def split_beta createNewEntity_fields acquired_def)

lemma destroy_heap_other: "r' \<noteq> r \<Longrightarrow> heap (destroy r w) r' = heap w r'"
  by (cases "active (heap w r)") (simp_all add: destroy_inactive destroy_fields)

lemma destroy_config: "config (destroy r w) = config w"
  by (cases "active (heap w r)") (simp_all add: destroy_inactive destroy_fields)

text \<open>A pool with \<open>initialSize 1\<close> and \<open>maxSize 2\<close>, after each step of a run.\<close>

lemma new_EntityPool_allocated: "allocated (new_EntityPool c i m gf g) = js_or_nat i 10"
  by (simp add: new_EntityPool_def Let_def preallocate_fields)

lemma pool12_0:
  "pool tower_pool_1_2 = [0]" "activeSet tower_pool_1_2 = []" "maxSize (config tower_pool_1_2) = 2"
  "allocated tower_pool_1_2 = Suc 0"
  by (simp_all add: tower_pool_1_2_def new_EntityPool_fields new_EntityPool_allocated js_or_nat_def)

lemma pool12_1:
  "fst (acquire d tower_pool_1_2) = 0"
  "pool (run_ops [Acquire d] tower_pool_1_2) = []"
  "activeSet (run_ops [Acquire d] tower_pool_1_2) = [0]"
  "maxSize (config (run_ops [Acquire d] tower_pool_1_2)) = 2"
  "allocated (run_ops [Acquire d] tower_pool_1_2) = Suc 0"
  "heap (run_ops [Acquire d] tower_pool_1_2) 0 = acquired d tower_pool_1_2 0"
  by (simp_all add: run_ops_def acquire_reuse acquire_reuse_allocated pool12_0 set_add_def)


lemma acquire_create_allocated:
  "pool w = [] \<Longrightarrow> length (activeSet w) < maxSize (config w) \<Longrightarrow>
     allocated (snd (acquire d w)) = Suc (allocated w)"
  by (simp add: acquire_def Let_def onDestroyed_def split_beta createNewEntity_fields put_def)

lemma pool12_2:
  "fst (acquire d (run_ops [Acquire d] tower_pool_1_2)) = Suc 0"
  "pool (run_ops [Acquire d, Acquire d] tower_pool_1_2) = []"
  "activeSet (run_ops [Acquire d, Acquire d] tower_pool_1_2) = [0, Suc 0]"
  "maxSize (config (run_ops [Acquire d, Acquire d] tower_pool_1_2)) = 2"
  "heap (run_ops [Acquire d, Acquire d] tower_pool_1_2) 0 = acquired d tower_pool_1_2 0"
  "heap (run_ops [Acquire d, Acquire d] tower_pool_1_2) (Suc 0) =
     acquired d (snd (createNewEntity (run_ops [Acquire d] tower_pool_1_2))) (Suc 0)"
proof -
  let ?w = "run_ops [Acquire d] tower_pool_1_2"
  have a: "pool ?w = []" "length (activeSet ?w) < maxSize (config ?w)"
    by (simp_all add: pool12_1)
  have r: "run_ops [Acquire d, Acquire d] tower_pool_1_2 = snd (acquire d ?w)"
    by (simp add: run_ops_def)
  note c = acquire_create [OF a, where d = d] acquire_create_heap [OF a, where d = d]
  show "fst (acquire d ?w) = Suc 0" by (simp add: c pool12_1)
  show "pool (run_ops [Acquire d, Acquire d] tower_pool_1_2) = []" by (simp add: r c)
  show "activeSet (run_ops [Acquire d, Acquire d] tower_pool_1_2) = [0, Suc 0]"
    by (simp add: r c pool12_1 set_add_def)
  show "maxSize (config (run_ops [Acquire d, Acquire d] tower_pool_1_2)) = 2"
    by (simp add: r c pool12_1)
  show "heap (run_ops [Acquire d, Acquire d] tower_pool_1_2) 0 = acquired d tower_pool_1_2 0"
    by (simp add: r c(6) pool12_1)
  show "heap (run_ops [Acquire d, Acquire d] tower_pool_1_2) (Suc 0) =
     acquired d (snd (createNewEntity ?w)) (Suc 0)"
    using c(5) by (simp add: r pool12_1)
qed


lemma run_ops_snoc: "run_ops (ops @ [x]) w = run_op x (run_ops ops w)"
  by (simp add: run_ops_def)

lemma pool12_3:
  "fst (acquire d (run_ops [Acquire d, Acquire d] tower_pool_1_2)) = 0"
  "pool (run_ops [Acquire d, Acquire d, Acquire d] tower_pool_1_2) = [0]"
  "activeSet (run_ops [Acquire d, Acquire d, Acquire d] tower_pool_1_2) = [Suc 0, 0]"
  "maxSize (config (run_ops [Acquire d, Acquire d, Acquire d] tower_pool_1_2)) = 2"
  "heap (run_ops [Acquire d, Acquire d, Acquire d] tower_pool_1_2) 0 =
     acquired d (run_ops [Acquire d, Acquire d] tower_pool_1_2) 0"
  "heap (run_ops [Acquire d, Acquire d, Acquire d] tower_pool_1_2) (Suc 0) =
     acquired d (snd (createNewEntity (run_ops [Acquire d] tower_pool_1_2))) (Suc 0)"
proof -
  let ?w = "run_ops [Acquire d, Acquire d] tower_pool_1_2"
  have a: "pool ?w = []" "\<not> length (activeSet ?w) < maxSize (config ?w)" "activeSet ?w = 0 # [Suc 0]"
    by (simp_all add: pool12_2)
  have r: "run_ops [Acquire d, Acquire d, Acquire d] tower_pool_1_2 = snd (acquire d ?w)"
    using run_ops_snoc [of "[Acquire d, Acquire d]" "Acquire d" tower_pool_1_2] by simp
  note f = acquire_forced [OF a, where d = d]
  have live: "active (heap ?w 0)" "pooled (heap ?w 0)" "PoolRelease \<in> set (onDestroyCallbacks (heap ?w 0))"
    by (simp_all add: pool12_2)
  show "fst (acquire d ?w) = 0" by (simp add: f)
  show "pool (run_ops [Acquire d, Acquire d, Acquire d] tower_pool_1_2) = [0]"
    unfolding r by (simp add: f destroy_pool_cases live a(1,3) pool12_2(4))
  show "activeSet (run_ops [Acquire d, Acquire d, Acquire d] tower_pool_1_2) = [Suc 0, 0]"
    unfolding r by (simp add: f destroy_activeSet_cases live a(3) set_add_def)
  show "maxSize (config (run_ops [Acquire d, Acquire d, Acquire d] tower_pool_1_2)) = 2"
    unfolding r by (simp add: f pool12_2)
  show "heap (run_ops [Acquire d, Acquire d, Acquire d] tower_pool_1_2) 0 = acquired d ?w 0"
    unfolding r by (simp add: f)
  show "heap (run_ops [Acquire d, Acquire d, Acquire d] tower_pool_1_2) (Suc 0) =
     acquired d (snd (createNewEntity (run_ops [Acquire d] tower_pool_1_2))) (Suc 0)"
    unfolding r by (simp add: f pool12_2)
qed

lemma pool12_4:
  "pool (run_ops [Acquire d, Acquire d, Acquire d, Destroy (Suc 0)] tower_pool_1_2) = [0, Suc 0]"
  "activeSet (run_ops [Acquire d, Acquire d, Acquire d, Destroy (Suc 0)] tower_pool_1_2) = [0]"
  "maxSize (config (run_ops [Acquire d, Acquire d, Acquire d, Destroy (Suc 0)] tower_pool_1_2)) = 2"
proof -
  let ?w = "run_ops [Acquire d, Acquire d, Acquire d] tower_pool_1_2"
  have r: "run_ops [Acquire d, Acquire d, Acquire d, Destroy (Suc 0)] tower_pool_1_2 = destroy (Suc 0) ?w"
    using run_ops_snoc [of "[Acquire d, Acquire d, Acquire d]" "Destroy (Suc 0)" tower_pool_1_2] by simp
  have live: "active (heap ?w (Suc 0))" "pooled (heap ?w (Suc 0))"
    "PoolRelease \<in> set (onDestroyCallbacks (heap ?w (Suc 0)))"
    by (simp_all add: pool12_3)
  show "pool (run_ops [Acquire d, Acquire d, Acquire d, Destroy (Suc 0)] tower_pool_1_2) = [0, Suc 0]"
    unfolding r by (simp add: destroy_pool_cases live pool12_3)
  show "activeSet (run_ops [Acquire d, Acquire d, Acquire d, Destroy (Suc 0)] tower_pool_1_2) = [0]"
    unfolding r by (simp add: destroy_activeSet_cases live pool12_3)
  show "maxSize (config (run_ops [Acquire d, Acquire d, Acquire d, Destroy (Suc 0)] tower_pool_1_2)) = 2"
    unfolding r by (simp add: destroy_config pool12_3)
qed

lemma pool12_5:
  "fst (acquire d (run_ops [Acquire d, Acquire d, Acquire d, Destroy (Suc 0)] tower_pool_1_2)) = Suc 0"
  "pool (run_ops [Acquire d, Acquire d, Acquire d, Destroy (Suc 0), Acquire d] tower_pool_1_2) = [0]"
  "activeSet (run_ops [Acquire d, Acquire d, Acquire d, Destroy (Suc 0), Acquire d] tower_pool_1_2) = [0, Suc 0]"
  "maxSize (config (run_ops [Acquire d, Acquire d, Acquire d, Destroy (Suc 0), Acquire d] tower_pool_1_2)) = 2"
proof -
  let ?w = "run_ops [Acquire d, Acquire d, Acquire d, Destroy (Suc 0)] tower_pool_1_2"
  have r: "run_ops [Acquire d, Acquire d, Acquire d, Destroy (Suc 0), Acquire d] tower_pool_1_2 = snd (acquire d ?w)"
    using run_ops_snoc [of "[Acquire d, Acquire d, Acquire d, Destroy (Suc 0)]" "Acquire d" tower_pool_1_2] by simp
  have ne: "pool ?w \<noteq> []" by (simp add: pool12_4)
  note u = acquire_reuse [OF ne, where d = d]
  show "fst (acquire d ?w) = Suc 0" by (simp add: u pool12_4)
  show "pool (run_ops [Acquire d, Acquire d, Acquire d, Destroy (Suc 0), Acquire d] tower_pool_1_2) = [0]"
    unfolding r by (simp add: u pool12_4)
  show "activeSet (run_ops [Acquire d, Acquire d, Acquire d, Destroy (Suc 0), Acquire d] tower_pool_1_2) = [0, Suc 0]"
    unfolding r by (simp add: u pool12_4 set_add_def)
  show "maxSize (config (run_ops [Acquire d, Acquire d, Acquire d, Destroy (Suc 0), Acquire d] tower_pool_1_2)) = 2"
    unfolding r by (simp add: u pool12_4)
qed

lemma pool12_6:
  "fst (acquire d (run_ops [Acquire d, Acquire d, Acquire d, Destroy (Suc 0), Acquire d] tower_pool_1_2)) = 0"
  "pool (run_ops [Acquire d, Acquire d, Acquire d, Destroy (Suc 0), Acquire d, Acquire d] tower_pool_1_2) = []"
  "activeSet (run_ops [Acquire d, Acquire d, Acquire d, Destroy (Suc 0), Acquire d, Acquire d] tower_pool_1_2)
     = [0, Suc 0]"
  "maxSize (config (run_ops [Acquire d, Acquire d, Acquire d, Destroy (Suc 0), Acquire d, Acquire d] tower_pool_1_2)) = 2"
proof -
  let ?w = "run_ops [Acquire d, Acquire d, Acquire d, Destroy (Suc 0), Acquire d] tower_pool_1_2"
  have r: "run_ops [Acquire d, Acquire d, Acquire d, Destroy (Suc 0), Acquire d, Acquire d] tower_pool_1_2
      = snd (acquire d ?w)"
    using run_ops_snoc [of "[Acquire d, Acquire d, Acquire d, Destroy (Suc 0), Acquire d]" "Acquire d" tower_pool_1_2]
    by simp
  have ne: "pool ?w \<noteq> []" by (simp add: pool12_5)
  note u = acquire_reuse [OF ne, where d = d]
  show "fst (acquire d ?w) = 0" by (simp add: u pool12_5)
  show "pool (run_ops [Acquire d, Acquire d, Acquire d, Destroy (Suc 0), Acquire d, Acquire d] tower_pool_1_2) = []"
    unfolding r by (simp add: u pool12_5)
  show "activeSet (run_ops [Acquire d, Acquire d, Acquire d, Destroy (Suc 0), Acquire d, Acquire d] tower_pool_1_2)
     = [0, Suc 0]"
    unfolding r by (simp add: u pool12_5 set_add_def)
  show "maxSize (config (run_ops [Acquire d, Acquire d, Acquire d, Destroy (Suc 0), Acquire d, Acquire d] tower_pool_1_2)) = 2"
    unfolding r by (simp add: u pool12_5)
qed


text \<open>
  Claim C3: with \<open>maxSize = 2\<close>, an empty free list and two active objects, a further
  \<open>acquire\<close> evicts the object that was activated first. The code breaks it: it evicts
  the first member of the active Set in insertion order, and an object that \<open>acquire\<close>
  pops from the free list while it is still in the active set (the defect of C1) keeps its
  old place in that order. On a pool with \<open>initialSize 1\<close> and \<open>maxSize 2\<close>, three
  calls of \<open>acquire\<close>, the destruction of object 1 and two more calls hand out the
  objects 0, 1, 0, 1, 0 in this order and leave the free list empty and the active set
  with the objects 0 and 1. The next \<open>acquire\<close> evicts object 0, the one activated last,
  and not object 1; the active set keeps its two objects.
\<close>

theorem forced_reuse_evicts_latest_activated:
  "fst (acquire example_data tower_pool_1_2) = 0
   \<and> fst (acquire example_data (run_ops [Acquire example_data] tower_pool_1_2)) = 1
   \<and> fst (acquire example_data (run_ops [Acquire example_data, Acquire example_data] tower_pool_1_2)) = 0
   \<and> fst (acquire example_data
         (run_ops [Acquire example_data, Acquire example_data, Acquire example_data, Destroy 1]
            tower_pool_1_2)) = 1
   \<and> fst (acquire example_data
         (run_ops [Acquire example_data, Acquire example_data, Acquire example_data, Destroy 1,
                   Acquire example_data] tower_pool_1_2)) = 0
   \<and> maxSize (config
         (run_ops [Acquire example_data, Acquire example_data, Acquire example_data, Destroy 1,
                   Acquire example_data, Acquire example_data] tower_pool_1_2)) = 2
   \<and> pool (run_ops [Acquire example_data, Acquire example_data, Acquire example_data, Destroy 1,
                    Acquire example_data, Acquire example_data] tower_pool_1_2) = []
   \<and> activeSet (run_ops [Acquire example_data, Acquire example_data, Acquire example_data, Destroy 1,
                         Acquire example_data, Acquire example_data] tower_pool_1_2) = [0, 1]
   \<and> fst (acquire example_data
         (run_ops [Acquire example_data, Acquire example_data, Acquire example_data, Destroy 1,
                   Acquire example_data, Acquire example_data] tower_pool_1_2)) = 0
   \<and> length (activeSet (snd (acquire example_data
         (run_ops [Acquire example_data, Acquire example_data, Acquire example_data, Destroy 1,
                   Acquire example_data, Acquire example_data] tower_pool_1_2)))) = 2"
proof -
  let ?w = "run_ops [Acquire example_data, Acquire example_data, Acquire example_data, Destroy (Suc 0),
                     Acquire example_data, Acquire example_data] tower_pool_1_2"
  have a: "maxSize (config ?w) = 2" "pool ?w = []" "activeSet ?w = [0, Suc 0]" "(0::nat) \<noteq> Suc 0"
    by (simp_all add: pool12_6)
  from acquire_evicts_set_head [OF a, of example_data]
  have e: "fst (acquire example_data ?w) = 0" "length (activeSet (snd (acquire example_data ?w))) = 2"
    by simp_all
  show ?thesis
    using e by (simp add: pool12_1 pool12_2 pool12_3 pool12_5 pool12_6)
qed


section \<open>Properties of the weapon system\<close>

lemma takeDamage_heap:
  "heap (snd (takeDamage amount r w)) =
     (if \<not> active (heap w r) \<or> health (heap w r) \<le> 0 then heap w
      else (heap w)(r := (heap w r)\<lparr>health := max 0 (health (heap w r) - amount),
                                       active := amount < health (heap w r)\<rparr>))"
proof (cases "\<not> active (heap w r) \<or> health (heap w r) \<le> 0")
  case True
  then show ?thesis by (auto simp: takeDamage_def)
next
  case False
  define e where "e = (heap w r)\<lparr>health := max 0 (health (heap w r) - amount)\<rparr>"
  define w2 where "w2 = fold (\<lambda>tag. emit (DamageListenerRan tag r amount)) (onDamageCallbacks (heap w r)) (put r e w)"
  have h2: "heap w2 = (heap w)(r := e)" by (simp add: w2_def damage_listeners_fields)
  have td: "takeDamage amount r w = (if health (heap w r) \<le> amount then (True, destroy r w2) else (False, w2))"
    unfolding w2_def e_def using False
    by (simp add: takeDamage_def Let_def damage_listeners_fields max_def)
  have act2: "active (heap w2 r)" using False by (simp add: h2 e_def)
  have eq: "e\<lparr>active := amount < health (heap w r)\<rparr> =
      (heap w r)\<lparr>health := max 0 (health (heap w r) - amount), active := amount < health (heap w r)\<rparr>"
    by (simp add: e_def)
  show ?thesis
  proof (cases "health (heap w r) \<le> amount")
    case True
    then show ?thesis using False eq
      by (simp add: td destroy_fields [OF act2] h2)
  next
    case dead: False
    have "e\<lparr>active := True\<rparr> = e" using False by (cases "heap w r") (simp add: e_def)
    then show ?thesis using False dead eq
      by (simp add: td h2)
  qed
qed

lemma damageEnemy_fields:
  "snd (damageEnemy r amount st) = snd (takeDamage amount r (snd st))"
  "damageLog (fst (damageEnemy r amount st)) = damageLog (fst st) @ [(r, amount)]"
  "tower (fst (damageEnemy r amount st)) = tower (fst st)"
  "targetingMode (fst (damageEnemy r amount st)) = targetingMode (fst st)"
  "lastFireTimes (fst (damageEnemy r amount st)) = lastFireTimes (fst st)"
  "projectiles (fst (damageEnemy r amount st)) = projectiles (fst st)"
  by (simp_all add: damageEnemy_def Let_def split_beta)

lemma damageEnemy_heap_other:
  "e \<noteq> r \<Longrightarrow> heap (snd (damageEnemy r amount st)) e = heap (snd st) e"
  by (simp add: damageEnemy_fields takeDamage_heap)

lemma damageEnemy_place:
  "posX (heap (snd (damageEnemy r amount st)) e) = posX (heap (snd st) e)"
  "posY (heap (snd (damageEnemy r amount st)) e) = posY (heap (snd st) e)"
  "radius (heap (snd (damageEnemy r amount st)) e) = radius (heap (snd st) e)"
  "speed (heap (snd (damageEnemy r amount st)) e) = speed (heap (snd st) e)"
  by (simp_all add: damageEnemy_fields takeDamage_heap)

lemma damageEnemy_distance:
  "enemyDistance (snd (damageEnemy r amount st)) a b = enemyDistance (snd st) a b"
  by (simp add: enemyDistance_def damageEnemy_place)


lemma new_hits_append [simp]:
  "damageLog (fst st') = damageLog (fst st) @ hs \<Longrightarrow> new_hits st st' = hs"
  by (simp add: new_hits_def)

lemma hits_on_simps [simp]:
  "hits_on r [] = []"
  "hits_on r ((e, a) # hs) = (if e = r then a # hits_on r hs else hits_on r hs)"
  by (simp_all add: hits_on_def)






lemma same_outside_distance: "same_outside visited w w' \<Longrightarrow> enemyDistance w' a b = enemyDistance w a b"
  by (simp add: same_outside_def enemyDistance_def)

lemma same_outside_candidate:
  "same_outside visited w w' \<Longrightarrow> candidate w' R es visited cur e = candidate w R es visited cur e"
  by (auto simp: candidate_def same_outside_distance) (auto simp: same_outside_def)

lemma same_outside_damage:
  assumes "same_outside visited w (snd st)"
  shows "same_outside (visited @ [ct]) w (snd (damageEnemy ct amount st))"
  using assms
  by (auto simp: same_outside_def damageEnemy_place damageEnemy_heap_other)

text \<open>The inner search of the chain.\<close>

lemma chain_search:
  assumes "\<forall>m. fst acc = Some m \<longrightarrow> m \<in> S \<and> m \<notin> set hit \<and> active (heap w m) \<and> enemyDistance w m ct = snd acc"
  shows "(case fst (fold (chain_step w ct hit) es acc) of
            None \<Rightarrow> fst acc = None \<and>
                    (\<forall>e\<in>set es. \<not> (e \<notin> set hit \<and> active (heap w e) \<and> enemyDistance w e ct \<le> snd acc))
          | Some n \<Rightarrow> (n \<in> set es \<or> n \<in> S) \<and> n \<notin> set hit \<and> active (heap w n)
                    \<and> enemyDistance w n ct \<le> snd acc
                    \<and> (\<forall>e\<in>set es. e \<notin> set hit \<and> active (heap w e) \<and> enemyDistance w e ct \<le> snd acc
                          \<longrightarrow> enemyDistance w n ct \<le> enemyDistance w e ct))"
  using assms
proof (induction es arbitrary: acc S)
  case Nil
  then show ?case by (cases "fst acc") auto
next
  case (Cons e es)
  let ?acc1 = "chain_step w ct hit e acc"
  show ?case
  proof (cases "e \<notin> set hit \<and> active (heap w e) \<and> enemyDistance w e ct \<le> snd acc")
    case True
    then have a1: "?acc1 = (Some e, enemyDistance w e ct)" by (simp add: chain_step_def)
    have inv: "\<forall>m. fst ?acc1 = Some m \<longrightarrow>
        m \<in> insert e S \<and> m \<notin> set hit \<and> active (heap w m) \<and> enemyDistance w m ct = snd ?acc1"
      using True by (simp add: a1)
    from Cons.IH [OF inv] True show ?thesis
      by (auto simp: a1 split: option.splits)
  next
    case False
    then have a1: "?acc1 = acc" by (auto simp: chain_step_def)
    from Cons.IH [of acc S] Cons.prems False show ?thesis
      by (auto simp: a1 split: option.splits)
  qed
qed

lemma chain_search_spec:
  "(case fst (fold (chain_step w ct hit) es (None, R)) of
      None \<Rightarrow> no_candidate w R es hit ct
    | Some n \<Rightarrow> nearest_candidate w R es hit ct n)"
  using chain_search [of "(None, R)" "{}" hit w ct es]
  by (auto simp: no_candidate_def nearest_candidate_def candidate_def split: option.splits)

lemma chain_loop_stop:
  "currentTarget = None \<or> \<not> chainCount < maxChains \<or> (\<exists>ct. currentTarget = Some ct \<and> ct \<in> set hitTargets)
   \<Longrightarrow> chain_loop weapon allEnemies currentTarget hitTargets chainCount st = st"
  by (subst chain_loop.simps) (auto split: option.splits)

lemma chain_loop_step:
  "chainCount < maxChains \<Longrightarrow> ct \<notin> set hitTargets \<Longrightarrow>
   chain_loop weapon allEnemies (Some ct) hitTargets chainCount st =
     chain_loop weapon allEnemies
       (fst (fold (chain_step (snd (damageEnemy ct (damage weapon) st)) ct (hitTargets @ [ct])) allEnemies
               (None, js_or (areaOfEffect weapon) 80)))
       (hitTargets @ [ct]) (Suc chainCount) (damageEnemy ct (damage weapon) st)"
  by (subst chain_loop.simps) (simp add: Let_def)

lemma chain_loop_spec:
  assumes "same_outside hit w0 (snd st)"
  shows "\<exists>chain.
       damageLog (fst (chain_loop wp es cur hit n st)) = damageLog (fst st) @ map (\<lambda>r. (r, damage wp)) chain
     \<and> length chain \<le> maxChains - n
     \<and> distinct chain \<and> set chain \<inter> set hit = {}
     \<and> (chain = [] \<longleftrightarrow> (cur = None \<or> \<not> n < maxChains \<or> (\<exists>ct. cur = Some ct \<and> ct \<in> set hit)))
     \<and> (\<forall>c rest. chain = c # rest \<longrightarrow>
            cur = Some c \<and> valid_chain w0 (js_or (areaOfEffect wp) 80) es (hit @ [c]) c rest)
     \<and> (chain \<noteq> [] \<and> length chain < maxChains - n \<longrightarrow>
            no_candidate w0 (js_or (areaOfEffect wp) 80) es (hit @ chain) (last chain))"
  using assms
proof (induction wp es cur hit n st rule: chain_loop.induct)
  case (1 wp es cur hit n st)
  let ?R = "js_or (areaOfEffect wp) 80"
  show ?case
  proof (cases "cur = None \<or> \<not> n < maxChains \<or> (\<exists>ct. cur = Some ct \<and> ct \<in> set hit)")
    case True
    have "chain_loop wp es cur hit n st = st" using True by (rule chain_loop_stop)
    then show ?thesis using True
      by (intro exI [of _ "[]"]) simp
  next
    case False
    then obtain ct where ct: "cur = Some ct" "n < maxChains" "ct \<notin> set hit" by auto
    define st1 where "st1 = damageEnemy ct (damage wp) st"
    define nx where "nx = fst (fold (chain_step (snd st1) ct (hit @ [ct])) es (None, ?R))"
    have step: "chain_loop wp es cur hit n st = chain_loop wp es nx (hit @ [ct]) (Suc n) st1"
      unfolding ct(1) st1_def nx_def using ct(2,3) by (rule chain_loop_step)
    have so1: "same_outside (hit @ [ct]) w0 (snd st1)"
      unfolding st1_def using "1.prems" by (rule same_outside_damage)
    from "1.IH" [OF ct(1) _ ct(3) st1_def nx_def so1] ct(2)
    obtain chain' where c':
      "damageLog (fst (chain_loop wp es nx (hit @ [ct]) (Suc n) st1)) =
         damageLog (fst st1) @ map (\<lambda>r. (r, damage wp)) chain'"
      "length chain' \<le> maxChains - Suc n"
      "distinct chain'" "set chain' \<inter> set (hit @ [ct]) = {}"
      "chain' = [] \<longleftrightarrow> (nx = None \<or> \<not> Suc n < maxChains \<or> (\<exists>c. nx = Some c \<and> c \<in> set (hit @ [ct])))"
      "\<forall>c rest. chain' = c # rest \<longrightarrow> nx = Some c \<and> valid_chain w0 ?R es ((hit @ [ct]) @ [c]) c rest"
      "chain' \<noteq> [] \<and> length chain' < maxChains - Suc n \<longrightarrow>
         no_candidate w0 ?R es ((hit @ [ct]) @ chain') (last chain')"
      by auto
    have search: "(case nx of None \<Rightarrow> no_candidate w0 ?R es (hit @ [ct]) ct
                   | Some m \<Rightarrow> nearest_candidate w0 ?R es (hit @ [ct]) ct m)"
      using chain_search_spec [where w = "snd st1" and ct = ct and hit = "hit @ [ct]" and es = es and R = ?R] so1
      by (auto simp: nx_def no_candidate_def nearest_candidate_def same_outside_candidate
            same_outside_distance split: option.splits)
    have log: "damageLog (fst (chain_loop wp es cur hit n st)) =
        damageLog (fst st) @ map (\<lambda>r. (r, damage wp)) (ct # chain')"
      unfolding step c'(1) by (simp add: st1_def damageEnemy_fields)
    have len: "length (ct # chain') \<le> maxChains - n" using c'(2) ct(2) by simp
    have dis: "distinct (ct # chain')" "set (ct # chain') \<inter> set hit = {}"
      using c'(3,4) ct(3) by auto
    have vc: "valid_chain w0 ?R es (hit @ [ct]) ct chain'"
    proof (cases chain')
      case Nil
      then show ?thesis by simp
    next
      case (Cons c rest)
      with c'(6) have "nx = Some c" "valid_chain w0 ?R es ((hit @ [ct]) @ [c]) c rest" by auto
      with search Cons show ?thesis by simp
    qed
    have early: "length (ct # chain') < maxChains - n \<longrightarrow>
        no_candidate w0 ?R es (hit @ ct # chain') (last (ct # chain'))"
    proof
      assume l: "length (ct # chain') < maxChains - n"
      show "no_candidate w0 ?R es (hit @ ct # chain') (last (ct # chain'))"
      proof (cases "chain' = []")
        case True
        with l have "Suc n < maxChains" by simp
        with c'(5) True have "nx = None \<or> (\<exists>c. nx = Some c \<and> c \<in> set (hit @ [ct]))" by simp
        then have "nx = None"
          using search by (auto simp: nearest_candidate_def candidate_def)
        with search True show ?thesis by simp
      next
        case False
        with l c'(7) show ?thesis by simp
      qed
    qed
    show ?thesis
      using log len dis vc early ct
      by (intro exI [of _ "ct # chain'"]) simp
  qed
qed

lemma enemy_at_fields:
  "posX (enemy_at px py h) = px" "posY (enemy_at px py h) = py"
  "active (enemy_at px py h)" "health (enemy_at px py h) = js_or (Some (js_or (Some h) 1)) 1"
  "onDamageCallbacks (enemy_at px py h) = []" "onDestroyCallbacks (enemy_at px py h) = []"
  "radius (enemy_at px py h) = 15"
  by (simp_all add: enemy_at_def new_Enemy_def new_Entity_def Let_def dummyData_def js_or_def js_or_string_def)

lemma arena_heap:
  "heap arena 0 = new_Tower dummyData"
  "heap arena 2 = enemy_at 10 0 5" "heap arena 3 = enemy_at 20 0 5" "heap arena 4 = enemy_at 200 0 5"
  by (simp_all add: arena_def)


lemma distance_on_axis: "distance x1 0 x2 0 = \<bar>x1 - x2\<bar>"
  by (simp add: distance_def)

lemma weapons0_fields: "tower weapons0 = Some 0" "damageLog weapons0 = []" "targetingMode weapons0 = NEAREST"
  "lastFireTimes weapons0 = Map.empty"
  by (simp_all add: weapons0_def)

lemma chain_lightning_fields:
  "damage chain_lightning = 2" "areaOfEffect chain_lightning = Some 80" "wname chain_lightning = ''Chain Lightning''"
  by (simp_all add: chain_lightning_def)

lemma arena_chain:
  "damageLog (fst (handleChainLightning chain_lightning 2 [2, 3, 4] (weapons0, arena))) = [(2, 2), (3, 2)]"
  by (simp add: handleChainLightning_def weapons0_fields chain_loop_step chain_loop_stop maxChains_def
        chain_lightning_fields damageEnemy_fields takeDamage_heap arena_heap enemy_at_fields
        chain_step_def enemyDistance_def distance_on_axis js_or_def)

lemma same_outside_refl: "same_outside visited w w"
  by (simp add: same_outside_def)

text \<open>
  Claim C6: one firing of the chain lightning damages at most 5 agents, each with the
  weapon's damage and no agent twice; the chain starts at the initial target, every further
  hop goes to a nearest agent among those of the list that are not yet visited, active and
  within the chain radius (\<open>areaOfEffect || 80\<close>) of the current link, and a chain of
  fewer than 5 links ended because its last link had no such candidate. (Without a tower
  the weapon does nothing.)
\<close>

theorem chain_lightning_hops:
  "(tower (fst st) = None \<longrightarrow> handleChainLightning wp target es st = st)
   \<and> (tower (fst st) \<noteq> None \<longrightarrow>
        new_hits st (handleChainLightning wp target es st) =
          map (\<lambda>r. (r, damage wp)) (chain_of st (handleChainLightning wp target es st))
      \<and> length (chain_of st (handleChainLightning wp target es st)) \<le> 5
      \<and> distinct (chain_of st (handleChainLightning wp target es st))
      \<and> chain_of st (handleChainLightning wp target es st) \<noteq> []
      \<and> hd (chain_of st (handleChainLightning wp target es st)) = target
      \<and> valid_chain (snd st) (js_or (areaOfEffect wp) 80) es [target] target
           (tl (chain_of st (handleChainLightning wp target es st)))
      \<and> (length (chain_of st (handleChainLightning wp target es st)) < 5 \<longrightarrow>
            no_candidate (snd st) (js_or (areaOfEffect wp) 80) es
              (chain_of st (handleChainLightning wp target es st))
              (last (chain_of st (handleChainLightning wp target es st)))))"
proof (intro conjI impI)
  assume "tower (fst st) = None"
  then show "handleChainLightning wp target es st = st"
    by (simp add: handleChainLightning_def)
next
  assume t: "tower (fst st) \<noteq> None"
  let ?st' = "handleChainLightning wp target es st"
  let ?R = "js_or (areaOfEffect wp) 80"
  have h: "?st' = chain_loop wp es (Some target) [] 0 st"
    using t by (auto simp: handleChainLightning_def)
  from chain_loop_spec [OF same_outside_refl, where hit = "[]" and wp = wp and es = es
      and cur = "Some target" and n = 0 and st = st]
  obtain chain where c:
    "damageLog (fst ?st') = damageLog (fst st) @ map (\<lambda>r. (r, damage wp)) chain"
    "length chain \<le> maxChains" "distinct chain" "chain \<noteq> []"
    "\<forall>c rest. chain = c # rest \<longrightarrow> c = target \<and> valid_chain (snd st) ?R es [c] c rest"
    "length chain < maxChains \<longrightarrow> no_candidate (snd st) ?R es chain (last chain)"
    unfolding h by (auto simp: maxChains_def)
  have n: "new_hits st ?st' = map (\<lambda>r. (r, damage wp)) chain"
    using c(1) by simp
  have co: "chain_of st ?st' = chain"
    by (simp add: chain_of_def n comp_def)
  obtain rest where r: "chain = target # rest" "valid_chain (snd st) ?R es [target] target rest"
    using c(4,5) by (cases chain) auto
  show "new_hits st ?st' = map (\<lambda>r. (r, damage wp)) (chain_of st ?st')"
    by (simp add: co n)
  show "length (chain_of st ?st') \<le> 5" using c(2) by (simp add: co maxChains_def)
  show "distinct (chain_of st ?st')" using c(3) by (simp add: co)
  show "chain_of st ?st' \<noteq> []" using c(4) by (simp add: co)
  show "hd (chain_of st ?st') = target" using r by (simp add: co)
  show "valid_chain (snd st) ?R es [target] target (tl (chain_of st ?st'))"
    using r by (simp add: co)
  assume "length (chain_of st ?st') < 5"
  then show "no_candidate (snd st) ?R es (chain_of st ?st') (last (chain_of st ?st'))"
    using c(6) by (simp add: co maxChains_def)
qed

lemma arena_chain_of:
  "chain_of (weapons0, arena) (handleChainLightning chain_lightning 2 [2, 3, 4] (weapons0, arena)) = [2, 3]"
  by (simp add: chain_of_def new_hits_def arena_chain weapons0_fields)

text \<open>Witness for C6: the chain on the arena goes from the first enemy to the second and stops.\<close>

theorem chain_lightning_hops_witness:
  "tower (fst (weapons0, arena)) = Some 0
   \<and> new_hits (weapons0, arena) (handleChainLightning chain_lightning 2 [2, 3, 4] (weapons0, arena))
        = [(2, 2), (3, 2)]
   \<and> chain_of (weapons0, arena) (handleChainLightning chain_lightning 2 [2, 3, 4] (weapons0, arena)) = [2, 3]
   \<and> valid_chain arena 80 [2, 3, 4] [2] 2 [3]
   \<and> no_candidate arena 80 [2, 3, 4] [2, 3] 3"
proof -
  have t: "tower (fst (weapons0, arena)) \<noteq> None" by (simp add: weapons0_fields)
  from chain_lightning_hops [of "(weapons0, arena)" chain_lightning 2 "[2, 3, 4]"] t
  show ?thesis
    by (simp add: arena_chain_of chain_lightning_fields js_or_def weapons0_fields)
qed








lemma field_tower: "tower (fst (fold (field_step t reach amount) es st)) = tower (fst st)"
  by (induction es arbitrary: st) (simp_all add: field_step_def damageEnemy_fields)














section \<open>Properties of the wave manager\<close>

text \<open>
  Claim C9: the spawn scheduler waits the \<open>spawnDelay\<close> of the generated WaveConfig.
  The code breaks it: \<open>generateWaveConfig\<close> stores \<open>max(0.5, base - (w-1) * 0.1)\<close>, and
  \<open>updateWaveSpawning\<close> never reads it but waits \<open>max(0.5, base - (w-1) * 0.05)\<close>. At
  wave 2 the configuration says 1.4 seconds; after 1.42 seconds the timer exceeds it and
  nothing is dequeued.
\<close>

theorem scheduler_ignores_config_spawnDelay:
  "spawnDelay (generateWaveConfig (wave_started 2) 2) = 7/5
   \<and> timeSinceLastSpawn (updateWaveSpawning (71/50) (wave_started 2)) = 71/50
   \<and> spawnDelay (generateWaveConfig (wave_started 2) 2) < timeSinceLastSpawn (updateWaveSpawning (71/50) (wave_started 2))
   \<and> spawnQueue (updateWaveSpawning (71/50) (wave_started 2)) = spawnQueue (wave_started 2)
   \<and> spawned (updateWaveSpawning (71/50) (wave_started 2)) = []"
  by (simp add: generateWaveConfig_def updateWaveSpawning_def wave_started_def Let_def)

text \<open>With the base delay of the source the two delays differ at every wave from 2 to 20.\<close>

lemma scheduler_delay_differs:
  assumes "2 \<le> n" and "n \<le> 20" and "baseSpawnDelay wm = 3/2"
  shows "max (1/2) (baseSpawnDelay wm - (real n - 1) * (5/100)) \<noteq> spawnDelay (generateWaveConfig wm n)"
proof -
  have "real n \<ge> 2" "real n \<le> 20" using assms(1,2) by simp_all
  then show ?thesis using assms(3)
    by (auto simp: generateWaveConfig_def max_def)
qed

text \<open>
  Witness for C9: at that input the scheduler is running (spawning, queue not empty), so the
  missing spawn is the scheduler's own decision.
\<close>

theorem scheduler_ignores_config_spawnDelay_witness:
  "spawningEnemies (wave_started 2) \<and> spawnQueue (wave_started 2) \<noteq> []
   \<and> currentWave (wave_started 2) = 2
   \<and> spawnDelay (generateWaveConfig (wave_started 2) 2) = 7/5
   \<and> timeSinceLastSpawn (updateWaveSpawning (71/50) (wave_started 2)) = 71/50
   \<and> spawned (updateWaveSpawning (71/50) (wave_started 2)) = []"
  using scheduler_ignores_config_spawnDelay by (simp add: wave_started_def)


end
